theory Spec2Isabelle
  imports Main "HOL-Library.Word"
begin

unbundle bit_operations_syntax

section \<open>Bytes, C strings and heap buffers\<close>

text \<open>
  The program is \<^verbatim>\<open>src/startup/darling.c\<close>. A C string is modelled by the list of the
  bytes stored at the pointer; the terminating nul is the end of the list, and a loop that
  runs "until \<^verbatim>\<open>*src == 0\<close>" also stops at a nul inside the list. A well-formed C string
  therefore has no nul among its bytes.

  Quantities of type \<^verbatim>\<open>size_t\<close> and the argument count are natural numbers: an
  argument vector lives in the address space of the process and is bounded by the kernel's
  limit on the size of \<^verbatim>\<open>argv\<close>, far below the range of either type.
\<close>

abbreviation NUL :: char where "NUL \<equiv> CHR 0x00"
abbreviation QUOTE :: char where "QUOTE \<equiv> CHR 0x27"
abbreviation BACKSLASH :: char where "BACKSLASH \<equiv> CHR 0x5C"
abbreviation SPACE :: char where "SPACE \<equiv> CHR 0x20"
abbreviation TAB :: char where "TAB \<equiv> CHR 0x09"
abbreviation NEWLINE :: char where "NEWLINE \<equiv> CHR 0x0A"

text \<open>
  A heap or stack buffer is the list of its bytes, \<open>None\<close> for a byte that was never
  written. \<open>malloc n\<close> returns \<open>n\<close> such bytes; the allocation is taken to succeed
  and to give a pointer that is not null, also for \<open>n = 0\<close>. A store outside the buffer
  is undefined behaviour in C; the model returns \<open>None\<close> for it.
\<close>

type_synonym buffer = "char option list"

definition malloc :: "nat \<Rightarrow> buffer" where
  "malloc n = replicate n None"

definition poke :: "buffer \<Rightarrow> nat \<Rightarrow> char \<Rightarrow> buffer option" where
  "poke b i c = (if i < length b then Some (b[i := Some c]) else None)"

fun memcpy :: "buffer \<Rightarrow> nat \<Rightarrow> string \<Rightarrow> buffer option" where
  "memcpy b i [] = Some b"
| "memcpy b i (c # cs) =
     (case poke b i c of None \<Rightarrow> None | Some b' \<Rightarrow> memcpy b' (Suc i) cs)"

text \<open>
  \<^verbatim>\<open>stpcpy(to, s)\<close> copies \<open>s\<close> and its terminating nul and returns the address of
  that nul.
\<close>

definition stpcpy :: "buffer \<Rightarrow> nat \<Rightarrow> string \<Rightarrow> (buffer \<times> nat) option" where
  "stpcpy b to s = map_option (\<lambda>b'. (b', to + length s)) (memcpy b to (s @ [NUL]))"

text \<open>
  The nul-terminated string stored at offset \<open>i\<close>: \<open>None\<close> when the scan meets an
  unwritten byte or leaves the buffer before a nul (\<^verbatim>\<open>strlen\<close> would be undefined).
\<close>

fun c_string :: "buffer \<Rightarrow> string option" where
  "c_string [] = None"
| "c_string (None # b) = None"
| "c_string (Some c # b) = (if c = NUL then Some [] else map_option ((#) c) (c_string b))"

definition c_string_at :: "buffer \<Rightarrow> nat \<Rightarrow> string option" where
  "c_string_at b i = c_string (drop i b)"

section \<open>Shell-mode quoting\<close>

text \<open>
  \<^verbatim>\<open>escapeQuotes(dest, src)\<close>, lines 523-546. \<open>dest\<close> is \<open>None\<close> for a null pointer and
  \<open>Some d\<close> for the offset \<open>d\<close> into the buffer \<open>b\<close>; \<open>len\<close> is the loop variable. The
  result is the buffer after the stores and the returned length.
\<close>

definition escapeQuotes_end :: "nat option \<Rightarrow> buffer \<Rightarrow> nat \<Rightarrow> (buffer \<times> nat) option" where
  "escapeQuotes_end dest b len =
     (case dest of
        None \<Rightarrow> Some (b, len)
      | Some d \<Rightarrow> map_option (\<lambda>b'. (b', len)) (poke b (d + len) NUL))"

fun escapeQuotes_loop :: "nat option \<Rightarrow> string \<Rightarrow> buffer \<Rightarrow> nat \<Rightarrow> (buffer \<times> nat) option" where
  "escapeQuotes_loop dest [] b len = escapeQuotes_end dest b len"
| "escapeQuotes_loop dest (c # src) b len =
     (if c = NUL then escapeQuotes_end dest b len
      else if c = QUOTE then
        (case dest of
           None \<Rightarrow> escapeQuotes_loop dest src b (len + 4)
         | Some d \<Rightarrow>
             (case memcpy b (d + len) [QUOTE, BACKSLASH, QUOTE, QUOTE] of
                None \<Rightarrow> None
              | Some b' \<Rightarrow> escapeQuotes_loop dest src b' (len + 4)))
      else
        (case dest of
           None \<Rightarrow> escapeQuotes_loop dest src b (len + 1)
         | Some d \<Rightarrow>
             (case poke b (d + len) c of
                None \<Rightarrow> None
              | Some b' \<Rightarrow> escapeQuotes_loop dest src b' (len + 1))))"

definition escapeQuotes :: "nat option \<Rightarrow> string \<Rightarrow> buffer \<Rightarrow> (buffer \<times> nat) option" where
  "escapeQuotes dest src b = escapeQuotes_loop dest src b 0"

text \<open>
  \<^verbatim>\<open>spawnShell\<close>, lines 659-675: the first loop adds up the escaped lengths, the buffer
  is allocated with \<^verbatim>\<open>total_len + count*3\<close> bytes, the second loop fills it. \<open>to\<close> is the
  offset of the write pointer from the start of the buffer, so \<^verbatim>\<open>to != buffer\<close> is
  \<open>to \<noteq> 0\<close>.
\<close>

fun spawnShell_total_len :: "string list \<Rightarrow> nat \<Rightarrow> nat option" where
  "spawnShell_total_len [] total_len = Some total_len"
| "spawnShell_total_len (a # argv) total_len =
     (case escapeQuotes None a [] of
        None \<Rightarrow> None
      | Some (_, n) \<Rightarrow> spawnShell_total_len argv (total_len + n))"

fun spawnShell_fill :: "string list \<Rightarrow> buffer \<Rightarrow> nat \<Rightarrow> (buffer \<times> nat) option" where
  "spawnShell_fill [] b to = Some (b, to)"
| "spawnShell_fill (a # argv) b to =
     (case (if to \<noteq> 0 then stpcpy b to [SPACE] else Some (b, to)) of
        None \<Rightarrow> None
      | Some (b1, to1) \<Rightarrow>
     (case stpcpy b1 to1 [QUOTE] of
        None \<Rightarrow> None
      | Some (b2, to2) \<Rightarrow>
     (case escapeQuotes (Some to2) a b2 of
        None \<Rightarrow> None
      | Some (b3, n) \<Rightarrow>
     (case stpcpy b3 (to2 + n) [QUOTE] of
        None \<Rightarrow> None
      | Some (b4, to4) \<Rightarrow> spawnShell_fill argv b4 to4))))"

definition spawnShell_buffer :: "string list \<Rightarrow> (buffer \<times> nat) option" where
  "spawnShell_buffer argv =
     (case spawnShell_total_len argv 0 of
        None \<Rightarrow> None
      | Some total_len \<Rightarrow>
          spawnShell_fill argv (malloc (total_len + length argv * 3)) 0)"

subsection \<open>The quoting rule in the words of the specification\<close>

text \<open>
  Each single quote of an argument is replaced by the four characters close-quote,
  backslash, quote, open-quote; each argument is wrapped in single quotes; the arguments
  are joined by single spaces.
\<close>

fun escaped :: "string \<Rightarrow> string" where
  "escaped [] = []"
| "escaped (c # cs) =
     (if c = QUOTE then [QUOTE, BACKSLASH, QUOTE, QUOTE] @ escaped cs else c # escaped cs)"

definition quoted :: "string \<Rightarrow> string" where
  "quoted a = [QUOTE] @ escaped a @ [QUOTE]"

fun join_spaces :: "string list \<Rightarrow> string" where
  "join_spaces [] = []"
| "join_spaces [w] = w"
| "join_spaces (w # v # ws) = w @ [SPACE] @ join_spaces (v # ws)"

definition shell_command :: "string list \<Rightarrow> string" where
  "shell_command argv = join_spaces (map quoted argv)"

definition escaped_length :: "string \<Rightarrow> nat" where
  "escaped_length a = length a + 3 * count_list a QUOTE"

definition c_strings :: "string list \<Rightarrow> bool" where
  "c_strings argv = list_all (\<lambda>a. \<not> List.member a NUL) argv"

subsection \<open>Word splitting of the POSIX shell\<close>

text \<open>
  The shell that re-reads the command string is not part of the program. This is the
  token recognition of the POSIX shell command language restricted to its quoting rules:
  inside single quotes every character is literal up to the next single quote; a
  backslash outside quotes makes the next character literal (and removes a following
  newline together with itself); unquoted blanks end a word; quotes do not end a word, so
  adjacent quoted and unquoted parts form one word, and a pair of quotes with nothing
  inside is an empty word. Every other unquoted character with a meaning to the shell
  (operators, expansions, double quotes, patterns, comments) is outside the fragment:
  the result is \<open>None\<close>, as it is for an unterminated quote or a trailing backslash.
\<close>

datatype sh_mode = Unquoted | SingleQuoted | AfterBackslash

definition sh_special :: "char \<Rightarrow> bool" where
  "sh_special c = List.member ''|&;<>()$`\"#*?[]~=%!{}'' c"

definition sh_extend :: "string option \<Rightarrow> string \<Rightarrow> string option" where
  "sh_extend cur cs = Some ((case cur of None \<Rightarrow> [] | Some w \<Rightarrow> w) @ cs)"

fun sh_words :: "sh_mode \<Rightarrow> string option \<Rightarrow> string \<Rightarrow> string list option" where
  "sh_words Unquoted cur [] = Some (case cur of None \<Rightarrow> [] | Some w \<Rightarrow> [w])"
| "sh_words SingleQuoted cur [] = None"
| "sh_words AfterBackslash cur [] = None"
| "sh_words SingleQuoted cur (c # cs) =
     (if c = QUOTE then sh_words Unquoted cur cs
      else sh_words SingleQuoted (sh_extend cur [c]) cs)"
| "sh_words AfterBackslash cur (c # cs) =
     (if c = NEWLINE then sh_words Unquoted cur cs
      else sh_words Unquoted (sh_extend cur [c]) cs)"
| "sh_words Unquoted cur (c # cs) =
     (if c = QUOTE then sh_words SingleQuoted (sh_extend cur []) cs
      else if c = BACKSLASH then sh_words AfterBackslash cur cs
      else if c = SPACE \<or> c = TAB then
        (case cur of
           None \<Rightarrow> sh_words Unquoted None cs
         | Some w \<Rightarrow> map_option ((#) w) (sh_words Unquoted None cs))
      else if c = NEWLINE \<or> sh_special c then None
      else sh_words Unquoted (sh_extend cur [c]) cs)"

definition posix_split :: "string \<Rightarrow> string list option" where
  "posix_split s = sh_words Unquoted None s"


text \<open>
  The bytes between the start of the buffer and the final write pointer, and the
  nul-terminated string that \<^verbatim>\<open>pushShellspawnCommand\<close> later reads at the start of the
  buffer.
\<close>

definition spawnShell_written :: "string list \<Rightarrow> string option" where
  "spawnShell_written argv =
     (case spawnShell_buffer argv of None \<Rightarrow> None | Some (b, to) \<Rightarrow> those (take to b))"

definition spawnShell_string :: "string list \<Rightarrow> string option" where
  "spawnShell_string argv =
     (case spawnShell_buffer argv of None \<Rightarrow> None | Some (b, to) \<Rightarrow> c_string_at b 0)"

text \<open>What the second and later arguments add to the command string.\<close>

definition later_args :: "string list \<Rightarrow> string" where
  "later_args argv = concat (map (\<lambda>a. SPACE # quoted a) argv)"

section \<open>The socket address\<close>

text \<open>
  \<^verbatim>\<open>connectToShellspawn\<close>, lines 554-559, with \<^verbatim>\<open>USE_LINUX_4_11_HACK\<close> defined as 1
  (line 47). \<^verbatim>\<open>sun_path\<close> is an array of 108 bytes. \<^verbatim>\<open>strcpy\<close> and \<^verbatim>\<open>strcat\<close> copy a
  C string with its nul; \<^verbatim>\<open>strcat\<close> starts at the first nul of the destination. The
  macro \<^verbatim>\<open>SHELLSPAWN_SOCKPATH\<close> comes from a header that is not part of the sources and
  is a parameter.
\<close>

definition c_str :: "string \<Rightarrow> string" where
  "c_str s = takeWhile (\<lambda>c. c \<noteq> NUL) s"

definition strcpy :: "buffer \<Rightarrow> string \<Rightarrow> buffer option" where
  "strcpy b s = memcpy b 0 (c_str s @ [NUL])"

definition strcat :: "buffer \<Rightarrow> string \<Rightarrow> buffer option" where
  "strcat b s =
     (case c_string b of
        None \<Rightarrow> None
      | Some old \<Rightarrow> memcpy b (length old) (c_str s @ [NUL]))"

definition sun_path_size :: nat where
  "sun_path_size = 108"

definition sun_path :: "string \<Rightarrow> string \<Rightarrow> buffer option" where
  "sun_path prefix sockpath =
     (case poke (malloc sun_path_size) 0 NUL of
        None \<Rightarrow> None
      | Some b0 \<Rightarrow>
     (case strcpy b0 prefix of
        None \<Rightarrow> None
      | Some b1 \<Rightarrow> strcat b1 sockpath))"

text \<open>
  How the kernel reads an \<^verbatim>\<open>AF_UNIX\<close> address passed with its full size: a first byte of
  nul selects the abstract namespace, any other first byte a pathname (the string up to the
  first nul).
\<close>

definition abstract_address :: "buffer \<Rightarrow> bool" where
  "abstract_address b = (case b of Some c # _ \<Rightarrow> c = NUL | _ \<Rightarrow> False)"

section \<open>The spawn protocol\<close>

text \<open>
  The command kinds are the enumerators of \<^verbatim>\<open>shellspawn_cmd_type_t\<close> that the program
  uses. A message on the channel is the header (\<open>cmd\<close>, \<open>data_length\<close>), the payload
  bytes and the descriptors of the \<^verbatim>\<open>SCM_RIGHTS\<close> control message sent with it (none for
  a plain \<^verbatim>\<open>write\<close>).
\<close>

datatype shellspawn_cmd_type =
    SHELLSPAWN_ADDARG
  | SHELLSPAWN_SETENV
  | SHELLSPAWN_CHDIR
  | SHELLSPAWN_SETUIDGID
  | SHELLSPAWN_SETEXEC
  | SHELLSPAWN_GO
  | SHELLSPAWN_SIGNAL

record message =
  cmd :: shellspawn_cmd_type
  data_length :: nat
  data :: "char list"
  rights :: "int list"

text \<open>The four bytes of an \<^verbatim>\<open>int\<close> in memory, least significant first.\<close>

definition int_bytes :: "32 word \<Rightarrow> char list" where
  "int_bytes w = map (\<lambda>i. char_of (unat (drop_bit (8 * i) w))) [0, 1, 2, 3]"

definition bytes_int :: "char list \<Rightarrow> 32 word" where
  "bytes_int bs = horner_sum of_char (256 :: 32 word) bs"

type_synonym winsize = "nat \<times> nat"

datatype syscall =
    Read int nat
  | Write int "char list"
  | Ioctl_FIONREAD int
  | Ioctl_TIOCGWINSZ int
  | Ioctl_TIOCSWINSZ int winsize
  | Tcsetattr_raw int
  | Close int

datatype read_result = RdErr | RdBytes "char list"

datatype poll_result = PollReady | PollEINTR | PollFailed

text \<open>
  One wake-up of \<^verbatim>\<open>poll\<close> as the outside world presents it: the signals delivered
  while the process waited (each with the size of the real terminal at that moment), the
  result of \<^verbatim>\<open>poll\<close>, the \<^verbatim>\<open>revents\<close> the loop then finds in the three entries, and
  the results of the system calls the loop may issue afterwards, in order.
\<close>

record round =
  signals :: "(int \<times> winsize) list"
  poll_rc :: poll_result
  revents0 :: "16 word"
  revents1 :: "16 word"
  revents2 :: "16 word"
  master_reads :: "read_result list"
  stdin_reads :: "(int option \<times> read_result) list"
  sock_read :: read_result

text \<open>
  Everything the spawn path obtains from outside the program. \<open>SYSTEM_ROOT\<close> and
  \<open>SHELLSPAWN_SOCKPATH\<close> are macros of headers that are not part of the sources.
\<close>

record env =
  prefix :: string
  SYSTEM_ROOT :: string
  SHELLSPAWN_SOCKPATH :: string
  g_originalUid :: "32 word"
  g_originalGid :: "32 word"
  g_workingDirectory :: string
  realpath :: "string \<Rightarrow> string option"
  socket_fd :: int
  connect_rc :: int
  write_complete :: "nat \<Rightarrow> bool"
  sendmsg_rc :: int
  pw_name :: "string option"
  getlogin :: "string option"
  isatty_stdin :: bool
  isatty_stdout :: bool
  isatty_stderr :: bool
  dup_stdin :: int
  tcgetattr_rc :: int
  posix_openpt_fd :: int
  unlockpt_rc :: int
  open_slave_fd :: int
  tcsetattr_rc :: int
  term_winsize :: winsize
  rounds :: "round list"

text \<open>
  The state of the process: how it ended (\<open>Exit n\<close> for \<^verbatim>\<open>exit(n)\<close> or a return of
  \<open>n\<close> from \<^verbatim>\<open>main\<close>, \<open>Undefined\<close> for undefined behaviour), whether it waits in
  \<^verbatim>\<open>poll\<close> with no further event to come, the messages written to the channel, the other
  system calls with an effect (oldest first), and the variables \<^verbatim>\<open>sockfd\<close>, \<^verbatim>\<open>fds\<close>
  and \<^verbatim>\<open>master\<close> of the spawn functions.
\<close>

datatype halt = Exit int | Undefined

record proc =
  halted :: "halt option"
  blocked :: bool
  sent :: "message list"
  syscalls :: "syscall list"
  sockfd :: int
  fds :: "int \<times> int \<times> int"
  master :: int

definition start :: proc where
  "start = \<lparr>halted = None, blocked = False, sent = [], syscalls = [],
            sockfd = - 1, fds = (- 1, - 1, - 1), master = - 1\<rparr>"

definition running :: "proc \<Rightarrow> bool" where
  "running p = (halted p = None \<and> \<not> blocked p)"

definition exit_with :: "int \<Rightarrow> proc \<Rightarrow> proc" where
  "exit_with n p = (if running p then p\<lparr>halted := Some (Exit n)\<rparr> else p)"

definition undefined_behaviour :: "proc \<Rightarrow> proc" where
  "undefined_behaviour p = (if running p then p\<lparr>halted := Some Undefined\<rparr> else p)"

definition did :: "syscall list \<Rightarrow> proc \<Rightarrow> proc" where
  "did cs p = (if running p then p\<lparr>syscalls := syscalls p @ cs\<rparr> else p)"

text \<open>
  \<^verbatim>\<open>pushShellspawnCommandData\<close>, lines 264-283: one \<^verbatim>\<open>write\<close> of header and payload; a
  short write ends the process with \<^verbatim>\<open>EXIT_FAILURE\<close>. \<^verbatim>\<open>pushShellspawnCommand\<close>, lines
  285-291: the payload is the string with its nul, or nothing for a null pointer.
\<close>

definition pushShellspawnCommandData ::
  "env \<Rightarrow> shellspawn_cmd_type \<Rightarrow> char list \<Rightarrow> proc \<Rightarrow> proc" where
  "pushShellspawnCommandData e type bytes p =
     (if \<not> running p then p
      else if write_complete e (length (sent p)) then
        p\<lparr>sent := sent p @ [\<lparr>cmd = type, data_length = length bytes, data = bytes, rights = []\<rparr>]\<rparr>
      else exit_with 1 p)"

definition pushShellspawnCommand ::
  "env \<Rightarrow> shellspawn_cmd_type \<Rightarrow> string option \<Rightarrow> proc \<Rightarrow> proc" where
  "pushShellspawnCommand e type val p =
     (case val of
        None \<Rightarrow> pushShellspawnCommandData e type [] p
      | Some v \<Rightarrow> pushShellspawnCommandData e type (c_str v @ [NUL]) p)"

text \<open>
  \<^verbatim>\<open>pushShellspawnCommandFDs\<close>, lines 293-326: \<^verbatim>\<open>sendmsg\<close> of the bare header with
  \<^verbatim>\<open>data_length = 0\<close> and one \<^verbatim>\<open>SCM_RIGHTS\<close> control message holding the three
  descriptors.
\<close>

definition pushShellspawnCommandFDs ::
  "env \<Rightarrow> shellspawn_cmd_type \<Rightarrow> int \<times> int \<times> int \<Rightarrow> proc \<Rightarrow> proc" where
  "pushShellspawnCommandFDs e type fs p =
     (if \<not> running p then p
      else if sendmsg_rc e < 0 then exit_with 1 p
      else
        (case fs of (f0, f1, f2) \<Rightarrow>
           p\<lparr>sent := sent p @ [\<lparr>cmd = type, data_length = 0, data = [], rights = [f0, f1, f2]\<rparr>]\<rparr>))"


text \<open>
  \<^verbatim>\<open>connectToShellspawn\<close>, lines 548-578: the address is built first; a failing
  \<^verbatim>\<open>socket\<close> or \<^verbatim>\<open>connect\<close> ends the process with status 1.
\<close>

definition connectToShellspawn :: "env \<Rightarrow> proc \<Rightarrow> proc" where
  "connectToShellspawn e p =
     (if \<not> running p then p
      else
        (case sun_path (prefix e) (SHELLSPAWN_SOCKPATH e) of
           None \<Rightarrow> undefined_behaviour p
         | Some addr \<Rightarrow>
             if socket_fd e = - 1 then exit_with 1 p
             else if connect_rc e = - 1 then exit_with 1 p
             else p\<lparr>sockfd := socket_fd e\<rparr>))"

text \<open>\<^verbatim>\<open>snprintf(buf, n, ...)\<close> keeps at most \<open>n - 1\<close> bytes of the formatted text.\<close>

definition snprintf :: "nat \<Rightarrow> string \<Rightarrow> string" where
  "snprintf n s = take (n - 1) s"

text \<open>\<^verbatim>\<open>setupShellspawnEnv\<close>, lines 580-609.\<close>

definition setupShellspawnEnv :: "env \<Rightarrow> proc \<Rightarrow> proc" where
  "setupShellspawnEnv e p =
     (let p1 = pushShellspawnCommand e SHELLSPAWN_SETENV
                 (Some ''PATH=/usr/bin:/bin:/usr/sbin:/sbin:/usr/local/bin'') p;
          p2 = pushShellspawnCommand e SHELLSPAWN_SETENV (Some ''TMPDIR=/private/tmp'') p1;
          login = (case pw_name e of Some n \<Rightarrow> Some n | None \<Rightarrow> getlogin e)
      in case login of
           None \<Rightarrow> exit_with 1 p2
         | Some l \<Rightarrow>
             pushShellspawnCommand e SHELLSPAWN_SETENV
               (Some (snprintf 4096 (''HOME=/Users/'' @ c_str l))) p2)"

text \<open>\<^verbatim>\<open>setupWorkingDir\<close>, lines 611-616, and \<^verbatim>\<open>setupIDs\<close>, lines 618-622.\<close>

definition setupWorkingDir :: "env \<Rightarrow> proc \<Rightarrow> proc" where
  "setupWorkingDir e p =
     pushShellspawnCommand e SHELLSPAWN_CHDIR
       (Some (snprintf 4096 (SYSTEM_ROOT e @ c_str (g_workingDirectory e)))) p"

definition setupIDs :: "env \<Rightarrow> proc \<Rightarrow> proc" where
  "setupIDs e p =
     pushShellspawnCommandData e SHELLSPAWN_SETUIDGID
       (int_bytes (g_originalUid e) @ int_bytes (g_originalGid e)) p"

text \<open>
  \<^verbatim>\<open>openpty_darling\<close>, lines 455-478: the pair of master and slave descriptors, or
  \<open>None\<close> for the return value \<open>-1\<close>. \<^verbatim>\<open>setupPtys\<close>, lines 480-518.
\<close>

definition openpty_darling :: "env \<Rightarrow> (int \<times> int) option" where
  "openpty_darling e =
     (if posix_openpt_fd e = - 1 then None
      else if unlockpt_rc e < 0 then None
      else if open_slave_fd e = - 1 then None
      else Some (posix_openpt_fd e, open_slave_fd e))"

definition setupPtys :: "env \<Rightarrow> proc \<Rightarrow> proc" where
  "setupPtys e p =
     (if \<not> running p then p
      else
        (case openpty_darling e of
           None \<Rightarrow> exit_with 1 p
         | Some (m, s) \<Rightarrow>
             (let p1 = p\<lparr>master := m, fds := (s, s, s)\<rparr>
              in if tcgetattr_rc e < 0 then p1
                 else if tcsetattr_rc e < 0 then exit_with 1 (did [Ioctl_TIOCGWINSZ 0] p1)
                 else did [Ioctl_TIOCGWINSZ 0, Tcsetattr_raw 0,
                           Ioctl_TIOCSWINSZ m (term_winsize e)] p1)))"

text \<open>\<^verbatim>\<open>setupFDs\<close>, lines 624-637.\<close>

definition setupFDs :: "env \<Rightarrow> proc \<Rightarrow> proc" where
  "setupFDs e p =
     (if \<not> running p then p
      else
        (let p0 = p\<lparr>master := - 1\<rparr>;
             p1 = (if isatty_stdin e then setupPtys e p0
                   else (case fds p0 of (f0, f1, f2) \<Rightarrow> p0\<lparr>fds := (dup_stdin e, f1, f2)\<rparr>))
         in if \<not> running p1 then p1
            else
              (case fds p1 of (f0, f1, f2) \<Rightarrow>
                 p1\<lparr>fds := (f0,
                    if master p1 = - 1 \<or> \<not> isatty_stdout e then 1 else f1,
                    if master p1 = - 1 \<or> \<not> isatty_stderr e then 2 else f2)\<rparr>)))"

section \<open>Signal forwarding and the event loop\<close>

definition SIGINT :: int where "SIGINT = 2"
definition SIGTERM :: int where "SIGTERM = 15"
definition SIGWINCH :: int where "SIGWINCH = 28"

definition POLLIN :: "16 word" where "POLLIN = 0x001"
definition POLLHUP :: "16 word" where "POLLHUP = 0x010"

text \<open>
  \<^verbatim>\<open>signalHandler\<close>, lines 331-354. The globals \<^verbatim>\<open>_shSockfd\<close> and \<^verbatim>\<open>pty_master\<close>
  hold the values \<^verbatim>\<open>shellLoop\<close> stored in them, the \<open>sockfd\<close> and \<open>master\<close> of the
  process state. \<open>ws\<close> is the size that \<^verbatim>\<open>TIOCGWINSZ\<close> reads from the real terminal.
\<close>

definition signalHandler :: "env \<Rightarrow> int \<Rightarrow> winsize \<Rightarrow> proc \<Rightarrow> proc" where
  "signalHandler e signo ws p =
     (let p1 = (if signo = SIGWINCH \<and> master p \<noteq> - 1
                then did [Ioctl_TIOCGWINSZ 0, Ioctl_TIOCSWINSZ (master p) ws] p
                else p);
          signo' = (if master p = - 1 \<and> signo = SIGINT then SIGTERM else signo)
      in pushShellspawnCommandData e SHELLSPAWN_SIGNAL (int_bytes (word_of_int signo')) p1)"

text \<open>
  The three branches of one iteration of \<^verbatim>\<open>shellLoop\<close>, lines 401-444. The buffer has
  4096 bytes. A read for which the outside world has no scripted result finds no data:
  \<open>EAGAIN\<close> on the non-blocking master, a count of zero on standard input.
\<close>

definition buf_size :: nat where
  "buf_size = 4096"

fun drain_master :: "read_result list \<Rightarrow> proc \<Rightarrow> proc" where
  "drain_master [] p = did [Read (master p) buf_size] p"
| "drain_master (RdErr # rs) p = did [Read (master p) buf_size] p"
| "drain_master (RdBytes bs # rs) p =
     (let got = take buf_size bs;
          p1 = did [Read (master p) buf_size] p;
          p2 = (if got \<noteq> [] then did [Write 1 got] p1 else p1)
      in if length got = buf_size then drain_master rs p2 else p2)"

definition fionread_request :: "int \<Rightarrow> nat" where
  "fionread_request rd = (if rd < 0 \<or> int buf_size < rd then buf_size else nat rd)"

definition stdin_step :: "int option \<Rightarrow> read_result \<Rightarrow> proc \<Rightarrow> proc \<times> bool" where
  "stdin_step queued res p =
     (case queued of
        None \<Rightarrow> (exit_with 1 (did [Ioctl_FIONREAD 0] p), False)
      | Some rd \<Rightarrow>
          (let n = fionread_request rd;
               p1 = did [Ioctl_FIONREAD 0, Read 0 n] p
           in case res of
                RdErr \<Rightarrow> (exit_with 1 p1, False)
              | RdBytes bs \<Rightarrow>
                  (let got = take n bs
                   in if got \<noteq> [] then (did [Write (master p) got] p1, length got = buf_size)
                      else (exit_with 1 p1, False))))"

fun drain_stdin :: "(int option \<times> read_result) list \<Rightarrow> proc \<Rightarrow> proc" where
  "drain_stdin [] p = fst (stdin_step (Some 0) (RdBytes []) p)"
| "drain_stdin ((queued, res) # rest) p =
     (case stdin_step queued res p of
        (p1, again) \<Rightarrow> if again then drain_stdin rest p1 else p1)"

definition read_exit_status :: "read_result \<Rightarrow> proc \<Rightarrow> proc" where
  "read_exit_status res p =
     (let p1 = did [Read (sockfd p) 4] p
      in case res of
           RdErr \<Rightarrow> exit_with 1 p1
         | RdBytes bs \<Rightarrow>
             if length (take 4 bs) = 4 then exit_with (sint (bytes_int (take 4 bs))) p1
             else exit_with 1 p1)"

text \<open>
  \<^verbatim>\<open>shellLoop\<close>, lines 356-446. \<^verbatim>\<open>poll\<close> looks at one entry without a pty and at three
  with one, so the \<^verbatim>\<open>revents\<close> of the entries for standard input and the master keep
  their initial zero without a pty. A failure of \<^verbatim>\<open>poll\<close> other than \<^verbatim>\<open>EINTR\<close> leaves
  the loop. When the script of the outside world ends the process stays in \<^verbatim>\<open>poll\<close>.
\<close>

definition deliver_signals :: "env \<Rightarrow> round \<Rightarrow> proc \<Rightarrow> proc" where
  "deliver_signals e r p = fold (\<lambda>(signo, ws). signalHandler e signo ws) (signals r) p"

definition master_branch :: "round \<Rightarrow> proc \<Rightarrow> proc" where
  "master_branch r p =
     (if master p \<noteq> - 1 \<and> revents2 r AND POLLIN \<noteq> 0
      then drain_master (master_reads r) p else p)"

definition stdin_branch :: "round \<Rightarrow> proc \<Rightarrow> proc" where
  "stdin_branch r p =
     (if master p \<noteq> - 1 \<and> revents1 r AND POLLIN \<noteq> 0
      then drain_stdin (stdin_reads r) p else p)"

definition channel_branch :: "round \<Rightarrow> proc \<Rightarrow> proc" where
  "channel_branch r p =
     (if revents0 r AND (POLLHUP OR POLLIN) \<noteq> 0
      then read_exit_status (sock_read r) p else p)"

fun shellLoop :: "env \<Rightarrow> round list \<Rightarrow> proc \<Rightarrow> proc" where
  "shellLoop e [] p = (if running p then p\<lparr>blocked := True\<rparr> else p)"
| "shellLoop e (r # rs) p =
     (if \<not> running p then p
      else
        (let p1 = deliver_signals e r p
         in if \<not> running p1 then p1
            else if poll_rc r = PollFailed then p1
            else shellLoop e rs (channel_branch r (stdin_branch r (master_branch r p1)))))"


section \<open>Spawn requests\<close>





section \<open>Finding the init process\<close>

text \<open>
  What \<^verbatim>\<open>getInitProcess\<close> sees of the system: the contents of the pid file
  \<^verbatim>\<open><prefix>/.init.pid\<close> (\<open>None\<close> when it cannot be opened), whether \<^verbatim>\<open>kill(pid, 0)\<close>
  succeeds, and the contents of \<^verbatim>\<open>/proc/<pid>/comm\<close> and \<^verbatim>\<open>/proc/<pid>/status\<close>.
  \<^verbatim>\<open>unlink\<close> of the pid file removes it; the process runs with effective uid 0.
\<close>

record world =
  pidfile :: "string option"
  kill0 :: "int \<Rightarrow> bool"
  proc_comm :: "int \<Rightarrow> string option"
  proc_status :: "int \<Rightarrow> string option"

definition unlink_pidfile :: "world \<Rightarrow> world" where
  "unlink_pidfile w = w\<lparr>pidfile := None\<rparr>"

text \<open>
  The conversions of \<^verbatim>\<open>scanf\<close> that the function uses. \<^verbatim>\<open>%d\<close> skips white space,
  accepts a sign and needs at least one digit; the number read is converted as
  \<^verbatim>\<open>strtol\<close> does, saturating at the ends of the range of \<^verbatim>\<open>long\<close>, and the \<^verbatim>\<open>int\<close>
  stored is its low 32 bits. \<^verbatim>\<open>%ms\<close> skips white space and takes the characters up to the next
  white space, at least one. Both return the rest of the input.
\<close>

definition isspace :: "char \<Rightarrow> bool" where
  "isspace c = List.member [SPACE, TAB, NEWLINE, CHR 0x0B, CHR 0x0C, CHR 0x0D] c"

definition isdigit :: "char \<Rightarrow> bool" where
  "isdigit c = (48 \<le> (of_char c :: nat) \<and> (of_char c :: nat) \<le> 57)"

definition digits_value :: "string \<Rightarrow> nat" where
  "digits_value ds = foldl (\<lambda>v c. 10 * v + (of_char c - 48)) 0 ds"

definition scan_sign :: "string \<Rightarrow> bool \<times> string" where
  "scan_sign s =
     (case s of
        [] \<Rightarrow> (False, [])
      | c # cs \<Rightarrow>
          if c = CHR ''-'' then (True, cs)
          else if c = CHR ''+'' then (False, cs)
          else (False, s))"

definition LONG_MAX :: int where
  "LONG_MAX = 9223372036854775807"

definition LONG_MIN :: int where
  "LONG_MIN = - 9223372036854775808"

definition strtol_value :: "bool \<Rightarrow> nat \<Rightarrow> int" where
  "strtol_value neg v =
     (if neg then (if - int v < LONG_MIN then LONG_MIN else - int v)
      else (if LONG_MAX < int v then LONG_MAX else int v))"

definition scan_d :: "string \<Rightarrow> (32 word \<times> string) option" where
  "scan_d s =
     (case scan_sign (dropWhile isspace s) of
        (neg, s1) \<Rightarrow>
          (let ds = takeWhile isdigit s1;
               num = strtol_value neg (digits_value ds)
           in if ds = [] then None
              else Some (word_of_int num :: 32 word, dropWhile isdigit s1)))"

definition scan_s :: "string \<Rightarrow> (string \<times> string) option" where
  "scan_s s =
     (let s1 = dropWhile isspace s;
          w = takeWhile (\<lambda>c. \<not> isspace c) s1
      in if w = [] then None else Some (w, dropWhile (\<lambda>c. \<not> isspace c) s1))"

text \<open>
  \<^verbatim>\<open>sscanf(line, "Uid: %d %d %d %d", ...) == 4\<close>: the tag must match the start of the
  line character by character, the blanks of the format match any white space, and the four
  conversions must all succeed.
\<close>

definition scan_ids :: "string \<Rightarrow> string \<Rightarrow> (32 word \<times> 32 word \<times> 32 word \<times> 32 word) option" where
  "scan_ids tag line =
     (if take (length tag) line \<noteq> tag then None
      else
        (case scan_d (drop (length tag) line) of
           None \<Rightarrow> None
         | Some (rid, s1) \<Rightarrow>
        (case scan_d s1 of
           None \<Rightarrow> None
         | Some (eid, s2) \<Rightarrow>
        (case scan_d s2 of
           None \<Rightarrow> None
         | Some (sid, s3) \<Rightarrow>
        (case scan_d s3 of
           None \<Rightarrow> None
         | Some (fid, s4) \<Rightarrow> Some (rid, eid, sid, fid))))))"

text \<open>The lines that successive calls of \<^verbatim>\<open>getline\<close> return, each with its newline.\<close>

fun getlines :: "string \<Rightarrow> string \<Rightarrow> string list" where
  "getlines cur [] = (if cur = [] then [] else [cur])"
| "getlines cur (c # cs) =
     (if c = NEWLINE then (cur @ [c]) # getlines [] cs else getlines (cur @ [c]) cs)"

text \<open>The body of the loop over the status file, lines 1135-1151.\<close>

definition status_line :: "32 word \<Rightarrow> 32 word \<Rightarrow> string \<Rightarrow> bool \<times> bool \<Rightarrow> bool \<times> bool" where
  "status_line uid gid statusBuf m =
     (case m of
        (uidMatch, gidMatch) \<Rightarrow>
          ((case scan_ids ''Uid:'' statusBuf of
              None \<Rightarrow> uidMatch
            | Some (rid, eid, sid, fid) \<Rightarrow> rid = uid \<and> eid = uid \<and> sid = uid \<and> fid = uid),
           (case scan_ids ''Gid:'' statusBuf of
              None \<Rightarrow> gidMatch
            | Some (rid, eid, sid, fid) \<Rightarrow> rid = gid \<and> eid = gid \<and> sid = gid \<and> fid = gid)))"

definition status_matches :: "32 word \<Rightarrow> 32 word \<Rightarrow> string \<Rightarrow> bool \<times> bool" where
  "status_matches uid gid status = fold (status_line uid gid) (getlines [] status) (False, False)"

text \<open>
  \<^verbatim>\<open>getInitProcess\<close>, lines 1059-1164. The globals \<^verbatim>\<open>g_originalUid\<close> and
  \<^verbatim>\<open>g_originalGid\<close> are the parameters \<open>uid\<close> and \<open>gid\<close>. The result is the returned
  pid and the system after the call.
\<close>

definition getInitProcess :: "32 word \<Rightarrow> 32 word \<Rightarrow> world \<Rightarrow> int \<times> world" where
  "getInitProcess uid gid w =
     (case pidfile w of
        None \<Rightarrow> (0, w)
      | Some content \<Rightarrow>
     (case scan_d content of
        None \<Rightarrow> (0, unlink_pidfile w)
      | Some (pid_i, _) \<Rightarrow>
          (let pid = sint pid_i
           in if \<not> kill0 w pid then (0, unlink_pidfile w)
              else
     (case proc_comm w pid of
        None \<Rightarrow> (0, unlink_pidfile w)
      | Some comm \<Rightarrow>
     (case scan_s comm of
        None \<Rightarrow> (0, unlink_pidfile w)
      | Some (exeBuf, _) \<Rightarrow>
          if c_str exeBuf \<noteq> ''darlingserver'' then (0, unlink_pidfile w)
          else if uid \<noteq> 0 then
            (case proc_status w pid of
               None \<Rightarrow> (0, unlink_pidfile w)
             | Some status \<Rightarrow>
                 (case status_matches uid gid status of
                    (uidMatch, gidMatch) \<Rightarrow>
                      if \<not> uidMatch \<or> \<not> gidMatch then (0, unlink_pidfile w)
                      else (pid, w)))
          else (pid, w))))))"


section \<open>Named messages and a sample run\<close>

definition string_message :: "shellspawn_cmd_type \<Rightarrow> string \<Rightarrow> message" where
  "string_message type v =
     \<lparr>cmd = type, data_length = length v + 1, data = v @ [NUL], rights = []\<rparr>"

definition ids_message :: "32 word \<Rightarrow> 32 word \<Rightarrow> message" where
  "ids_message uid gid =
     \<lparr>cmd = SHELLSPAWN_SETUIDGID, data_length = 8,
      data = int_bytes uid @ int_bytes gid, rights = []\<rparr>"

definition go_message :: "int \<times> int \<times> int \<Rightarrow> message" where
  "go_message fs =
     (case fs of (f0, f1, f2) \<Rightarrow>
        \<lparr>cmd = SHELLSPAWN_GO, data_length = 0, data = [], rights = [f0, f1, f2]\<rparr>)"

definition signal_message :: "int \<Rightarrow> message" where
  "signal_message signo =
     \<lparr>cmd = SHELLSPAWN_SIGNAL, data_length = 4, data = int_bytes (word_of_int signo),
      rights = []\<rparr>"

definition is_signal :: "message \<Rightarrow> bool" where
  "is_signal m = (cmd m = SHELLSPAWN_SIGNAL \<and> rights m = [])"

text \<open>
  An environment in which no call fails: \<open>pty\<close> says whether the three standard
  descriptors are terminals, \<open>rs\<close> is what the event loop meets.
\<close>

definition sample_env :: "bool \<Rightarrow> round list \<Rightarrow> env" where
  "sample_env pty rs =
     \<lparr>prefix = ''/home/u/.darling'',
      SYSTEM_ROOT = ''/Volumes/SystemRoot'',
      SHELLSPAWN_SOCKPATH = ''/var/run/shellspawn.sock'',
      g_originalUid = 1000, g_originalGid = 1000,
      g_workingDirectory = ''/home/u'',
      realpath = (\<lambda>path. Some path),
      socket_fd = 3, connect_rc = 0,
      write_complete = (\<lambda>n. True),
      sendmsg_rc = 0,
      pw_name = Some ''u'', getlogin = None,
      isatty_stdin = pty, isatty_stdout = pty, isatty_stderr = pty,
      dup_stdin = 4,
      tcgetattr_rc = 0, posix_openpt_fd = 5, unlockpt_rc = 0, open_slave_fd = 6,
      tcsetattr_rc = 0,
      term_winsize = (24, 80),
      rounds = rs\<rparr>"

definition quiet_round :: round where
  "quiet_round =
     \<lparr>signals = [], poll_rc = PollReady, revents0 = 0, revents1 = 0, revents2 = 0,
      master_reads = [], stdin_reads = [], sock_read = RdErr\<rparr>"




text \<open>A read that returns an error or no byte when \<open>n\<close> bytes were asked for.\<close>

definition read_failed :: "nat \<Rightarrow> read_result \<Rightarrow> bool" where
  "read_failed n res = (case res of RdErr \<Rightarrow> True | RdBytes bs \<Rightarrow> take n bs = [])"

text \<open>
  The status with which the loop ends the process after reading the channel: the value
  of the four bytes when four were read, 1 otherwise.
\<close>

definition channel_status :: "read_result \<Rightarrow> int" where
  "channel_status res =
     (case res of
        RdErr \<Rightarrow> 1
      | RdBytes bs \<Rightarrow> if 4 \<le> length bs then sint (bytes_int (take 4 bs)) else 1)"

definition sample_world :: "string \<Rightarrow> string \<Rightarrow> world" where
  "sample_world name ids =
     \<lparr>pidfile = Some ''1234'',
      kill0 = (\<lambda>pid. pid = 1234),
      proc_comm = (\<lambda>pid. if pid = 1234 then Some (name @ [NEWLINE]) else None),
      proc_status = (\<lambda>pid. if pid = 1234
         then Some (''Name:'' @ [TAB] @ name @ [NEWLINE] @
                    ''Uid:'' @ ids @ [NEWLINE] @ ''Gid:'' @ ids @ [NEWLINE])
         else None)\<rparr>"

definition tabbed :: "string list \<Rightarrow> string" where
  "tabbed ws = concat (map (\<lambda>w. TAB # w) ws)"

section \<open>Notions used in the proofs\<close>

text \<open>
  A process that has sent no \<^verbatim>\<open>Go\<close> and no descriptors; a process whose channel holds
  what another one's held, followed by \<^verbatim>\<open>Signal\<close> commands only; and the shape of the
  channel traffic of a spawn request.
\<close>

definition plain :: "proc \<Rightarrow> bool" where
  "plain p = list_all (\<lambda>m. cmd m \<noteq> SHELLSPAWN_GO \<and> rights m = []) (sent p)"


definition go_shape :: "proc \<Rightarrow> bool" where
  "go_shape q =
     (\<exists>pre gos sigs. sent q = pre @ gos @ sigs \<and>
        list_all (\<lambda>m. cmd m \<noteq> SHELLSPAWN_GO \<and> rights m = []) pre \<and>
        (gos = [] \<and> \<not> blocked q \<or> gos = [go_message (fds q)]) \<and> list_all is_signal sigs)"


section \<open>Properties of the quoting code\<close>

subsection \<open>Stores into a buffer\<close>

lemma poke_in_bounds: "i < length b \<Longrightarrow> poke b i c = Some (b[i := Some c])"
  by (simp add: poke_def)

lemma poke_out_of_bounds: "length b \<le> i \<Longrightarrow> poke b i c = None"
  by (simp add: poke_def)

lemma memcpy_in_bounds:
  "i + length s \<le> length b \<Longrightarrow>
   \<exists>b'. memcpy b i s = Some b' \<and> length b' = length b \<and>
        take (i + length s) b' = take i b @ map Some s"
proof (induction s arbitrary: b i)
  case Nil
  then show ?case by simp
next
  case (Cons c s)
  let ?b1 = "b[i := Some c]"
  have i: "i < length b" using Cons.prems by simp
  have "Suc i + length s \<le> length ?b1" using Cons.prems by simp
  from Cons.IH [OF this] obtain b' where
    b': "memcpy ?b1 (Suc i) s = Some b'" "length b' = length ?b1"
        "take (Suc i + length s) b' = take (Suc i) ?b1 @ map Some s"
    by blast
  have "take (Suc i) ?b1 = take i b @ [Some c]"
    using i by (simp add: take_Suc_conv_app_nth)
  with b' i show ?case by (simp add: poke_def)
qed

lemma memcpy_keeps_prefix:
  assumes "memcpy b i s = Some b'" "n \<le> i"
  shows "take n b' = take n b"
  using assms
proof (induction s arbitrary: b i)
  case Nil
  then show ?case by simp
next
  case (Cons c s)
  then show ?case
    by (auto simp: poke_def split: if_splits)
qed

lemma stpcpy_in_bounds:
  assumes "to + length s < length b"
  shows "\<exists>b'. stpcpy b to s = Some (b', to + length s) \<and> length b' = length b \<and>
          take (to + length s) b' = take to b @ map Some s \<and>
          b' ! (to + length s) = Some NUL"
proof -
  have "to + length (s @ [NUL]) \<le> length b" using assms by simp
  from memcpy_in_bounds [OF this] obtain b' where
    b': "memcpy b to (s @ [NUL]) = Some b'" "length b' = length b"
        "take (to + length (s @ [NUL])) b' = take to b @ map Some (s @ [NUL])"
    by blast
  have eq: "take (Suc (to + length s)) b' = (take to b @ map Some s) @ [Some NUL]"
    using b'(3) by simp
  have len: "length (take to b @ map Some s) = to + length s"
    using assms by simp
  have "take (to + length s) (take (Suc (to + length s)) b') = take to b @ map Some s"
    unfolding eq using len by simp
  then have t: "take (to + length s) b' = take to b @ map Some s"
    by (simp add: min_def)
  have "take (Suc (to + length s)) b' ! (to + length s) = Some NUL"
    unfolding eq using len by (metis nth_append_length)
  then have "b' ! (to + length s) = Some NUL" by simp
  with b' t show ?thesis by (simp add: stpcpy_def)
qed

subsection \<open>\<^verbatim>\<open>escapeQuotes\<close> computes and stores the escaped string\<close>

lemma length_escaped: "length (escaped a) = escaped_length a"
  by (induction a) (simp_all add: escaped_length_def)

lemma escapeQuotes_null:
  "NUL \<notin> set a \<Longrightarrow> escapeQuotes_loop None a b len = Some (b, len + length (escaped a))"
  by (induction a arbitrary: len) (auto simp: escapeQuotes_end_def)

lemma escapeQuotes_dest:
  assumes "NUL \<notin> set a" "d + len + length (escaped a) < length b"
  shows "\<exists>b'. escapeQuotes_loop (Some d) a b len = Some (b', len + length (escaped a)) \<and>
          length b' = length b \<and>
          take (d + len + length (escaped a)) b' = take (d + len) b @ map Some (escaped a) \<and>
          b' ! (d + len + length (escaped a)) = Some NUL"
  using assms
proof (induction a arbitrary: b len)
  case Nil
  then show ?case by (simp add: escapeQuotes_end_def poke_def)
next
  case (Cons c a)
  show ?case
  proof (cases "c = QUOTE")
    case True
    let ?q = "[QUOTE, BACKSLASH, QUOTE, QUOTE]"
    have l4: "length ?q = 4" by simp
    have "(d + len) + length ?q \<le> length b" using Cons.prems True by simp
    from memcpy_in_bounds [OF this, unfolded l4] obtain b1 where
      b1: "memcpy b (d + len) ?q = Some b1" "length b1 = length b"
          "take (d + len + 4) b1 = take (d + len) b @ map Some ?q"
      by blast
    have "NUL \<notin> set a" "d + (len + 4) + length (escaped a) < length b1"
      using Cons.prems True b1(2) by simp_all
    from Cons.IH [OF this] obtain b' where
      b': "escapeQuotes_loop (Some d) a b1 (len + 4) = Some (b', len + 4 + length (escaped a))"
          "length b' = length b1"
          "take (d + (len + 4) + length (escaped a)) b' =
             take (d + (len + 4)) b1 @ map Some (escaped a)"
          "b' ! (d + (len + 4) + length (escaped a)) = Some NUL"
      by blast
    have pre: "take (d + (len + 4)) b1 = take (d + len) b @ map Some ?q"
      using b1(3) by (simp add: add.assoc)
    have step: "escapeQuotes_loop (Some d) (c # a) b len =
                  escapeQuotes_loop (Some d) a b1 (len + 4)"
      using True b1(1) by (simp del: memcpy.simps)
    have n: "d + len + length (escaped (c # a)) = d + (len + 4) + length (escaped a)"
      using True by simp
    have n2: "len + length (escaped (c # a)) = len + 4 + length (escaped a)"
      using True by simp
    have t: "take (d + len) b @ map Some (escaped (c # a)) =
               take (d + (len + 4)) b1 @ map Some (escaped a)"
      using True pre by simp
    show ?thesis unfolding step n n2 t using b' b1(2) by simp
  next
    case False
    let ?b1 = "b[d + len := Some c]"
    have c: "c \<noteq> NUL" using Cons.prems by auto
    have i: "d + len < length b" using Cons.prems by simp
    have "NUL \<notin> set a" "d + (len + 1) + length (escaped a) < length ?b1"
      using Cons.prems False by simp_all
    from Cons.IH [OF this] obtain b' where
      b': "escapeQuotes_loop (Some d) a ?b1 (len + 1) = Some (b', len + 1 + length (escaped a))"
          "length b' = length ?b1"
          "take (d + (len + 1) + length (escaped a)) b' =
             take (d + (len + 1)) ?b1 @ map Some (escaped a)"
          "b' ! (d + (len + 1) + length (escaped a)) = Some NUL"
      by blast
    have pre: "take (d + (len + 1)) ?b1 = take (d + len) b @ [Some c]"
      using i by (simp add: take_Suc_conv_app_nth)
    have step: "escapeQuotes_loop (Some d) (c # a) b len =
                  escapeQuotes_loop (Some d) a ?b1 (len + 1)"
      using False c i by (simp add: poke_def)
    have n: "d + len + length (escaped (c # a)) = d + (len + 1) + length (escaped a)"
      using False by simp
    have n2: "len + length (escaped (c # a)) = len + 1 + length (escaped a)"
      using False by simp
    have t: "take (d + len) b @ map Some (escaped (c # a)) =
               take (d + (len + 1)) ?b1 @ map Some (escaped a)"
      using False pre by simp
    show ?thesis unfolding step n n2 t using b' by simp
  qed
qed

subsection \<open>The fill loop of \<^verbatim>\<open>spawnShell\<close>\<close>

lemma join_spaces_quoted:
  "join_spaces (map quoted (a # argv)) = quoted a @ later_args argv"
  by (induction argv arbitrary: a) (simp_all add: later_args_def)

lemma shell_command_Cons: "shell_command (a # argv) = quoted a @ later_args argv"
  unfolding shell_command_def by (rule join_spaces_quoted)

lemma fill_one:
  assumes a: "NUL \<notin> set a" and fits: "to + length (pre @ quoted a) < length b"
    and sep: "(if to \<noteq> 0 then stpcpy b to [SPACE] else Some (b, to)) = Some (b1, to + length pre)"
    and b1: "length b1 = length b" "take (to + length pre) b1 = take to b @ map Some pre"
  shows "\<exists>b4. spawnShell_fill (a # argv) b to =
                 spawnShell_fill argv b4 (to + length (pre @ quoted a)) \<and>
          length b4 = length b \<and>
          take (to + length (pre @ quoted a)) b4 = take to b @ map Some (pre @ quoted a) \<and>
          b4 ! (to + length (pre @ quoted a)) = Some NUL"
proof -
  let ?to1 = "to + length pre"
  let ?n = "length (escaped a)"
  have "?to1 + length [QUOTE] < length b1" using fits b1(1) by (simp add: quoted_def)
  from stpcpy_in_bounds [OF this] obtain b2 where
    b2: "stpcpy b1 ?to1 [QUOTE] = Some (b2, ?to1 + length [QUOTE])" "length b2 = length b1"
        "take (?to1 + length [QUOTE]) b2 = take ?to1 b1 @ map Some [QUOTE]"
    by blast
  let ?to2 = "?to1 + length [QUOTE]"
  have "?to2 + 0 + ?n < length b2" using fits b1(1) b2(2) by (simp add: quoted_def)
  from escapeQuotes_dest [OF a this] obtain b3 where
    b3: "escapeQuotes_loop (Some ?to2) a b2 0 = Some (b3, 0 + ?n)" "length b3 = length b2"
        "take (?to2 + 0 + ?n) b3 = take (?to2 + 0) b2 @ map Some (escaped a)"
    by blast
  have "(?to2 + ?n) + length [QUOTE] < length b3"
    using fits b1(1) b2(2) b3(2) by (simp add: quoted_def)
  from stpcpy_in_bounds [OF this] obtain b4 where
    b4: "stpcpy b3 (?to2 + ?n) [QUOTE] = Some (b4, (?to2 + ?n) + length [QUOTE])"
        "length b4 = length b3"
        "take ((?to2 + ?n) + length [QUOTE]) b4 = take (?to2 + ?n) b3 @ map Some [QUOTE]"
        "b4 ! ((?to2 + ?n) + length [QUOTE]) = Some NUL"
    by blast
  have pos: "(?to2 + ?n) + length [QUOTE] = to + length (pre @ quoted a)"
    by (simp add: quoted_def)
  have content: "take (?to2 + ?n) b3 @ map Some [QUOTE] = take to b @ map Some (pre @ quoted a)"
    using b3(3) b2(3) b1(2) by (simp add: quoted_def)
  have run: "spawnShell_fill (a # argv) b to = spawnShell_fill argv b4 ((?to2 + ?n) + length [QUOTE])"
    using sep b2(1) b3(1) b4(1) by (simp add: escapeQuotes_def del: escapeQuotes_loop.simps)
  show ?thesis
    using run b4 b3(2) b2(2) b1(1) content unfolding pos by auto
qed

lemma fill_later:
  assumes "list_all (\<lambda>a. NUL \<notin> set a) argv" "to \<noteq> 0" "to + length (later_args argv) < length b"
  shows "\<exists>b'. spawnShell_fill argv b to = Some (b', to + length (later_args argv)) \<and>
          length b' = length b \<and>
          take (to + length (later_args argv)) b' = take to b @ map Some (later_args argv) \<and>
          (argv \<noteq> [] \<longrightarrow> b' ! (to + length (later_args argv)) = Some NUL)"
  using assms
proof (induction argv arbitrary: b to)
  case Nil
  then show ?case by (simp add: later_args_def)
next
  case (Cons a argv)
  have a: "NUL \<notin> set a" and rest: "list_all (\<lambda>a. NUL \<notin> set a) argv"
    using Cons.prems(1) by simp_all
  have split: "later_args (a # argv) = ([SPACE] @ quoted a) @ later_args argv"
    by (simp add: later_args_def)
  have fits: "to + length ([SPACE] @ quoted a) < length b"
    using Cons.prems(3) unfolding split by simp
  have "to + length [SPACE] < length b" using fits by simp
  from stpcpy_in_bounds [OF this] obtain b1 where
    b1: "stpcpy b to [SPACE] = Some (b1, to + length [SPACE])" "length b1 = length b"
        "take (to + length [SPACE]) b1 = take to b @ map Some [SPACE]"
    by blast
  have sep: "(if to \<noteq> 0 then stpcpy b to [SPACE] else Some (b, to)) = Some (b1, to + length [SPACE])"
    using Cons.prems(2) b1(1) by simp
  from fill_one [OF a fits sep b1(2,3)] obtain b4 where
    b4: "spawnShell_fill (a # argv) b to =
           spawnShell_fill argv b4 (to + length ([SPACE] @ quoted a))"
        "length b4 = length b"
        "take (to + length ([SPACE] @ quoted a)) b4 = take to b @ map Some ([SPACE] @ quoted a)"
        "b4 ! (to + length ([SPACE] @ quoted a)) = Some NUL"
    by blast
  let ?to4 = "to + length ([SPACE] @ quoted a)"
  have "?to4 \<noteq> 0" by simp
  moreover have "?to4 + length (later_args argv) < length b4"
    using Cons.prems(3) b4(2) unfolding split by simp
  ultimately obtain b' where
    b': "spawnShell_fill argv b4 ?to4 = Some (b', ?to4 + length (later_args argv))"
        "length b' = length b4"
        "take (?to4 + length (later_args argv)) b' = take ?to4 b4 @ map Some (later_args argv)"
        "argv \<noteq> [] \<longrightarrow> b' ! (?to4 + length (later_args argv)) = Some NUL"
    using Cons.IH [OF rest] by blast
  have pos: "?to4 + length (later_args argv) = to + length (later_args (a # argv))"
    unfolding split by simp
  have content: "take ?to4 b4 @ map Some (later_args argv) =
                   take to b @ map Some (later_args (a # argv))"
    unfolding split b4(3) by simp
  have last: "b' ! (?to4 + length (later_args argv)) = Some NUL"
  proof (cases argv)
    case Nil
    then show ?thesis using b'(1) b4(4) by (simp add: later_args_def)
  next
    case (Cons x xs)
    then show ?thesis using b'(4) by simp
  qed
  show ?case
    using b4(1,2) b' last content unfolding pos by simp
qed

lemma c_strings_iff: "c_strings argv = list_all (\<lambda>a. NUL \<notin> set a) argv"
  by (simp add: c_strings_def)

lemma length_quoted: "length (quoted a) = escaped_length a + 2"
  by (simp add: quoted_def length_escaped)

lemma length_later_args:
  "length (later_args argv) = sum_list (map escaped_length argv) + 3 * length argv"
  by (induction argv) (simp_all add: later_args_def length_quoted)

lemma length_shell_command:
  "argv \<noteq> [] \<Longrightarrow>
   Suc (length (shell_command argv)) = sum_list (map escaped_length argv) + 3 * length argv"
  by (cases argv) (simp_all add: shell_command_Cons length_quoted length_later_args)

lemma spawnShell_total_len_eq:
  "list_all (\<lambda>a. NUL \<notin> set a) argv \<Longrightarrow>
   spawnShell_total_len argv t = Some (t + sum_list (map escaped_length argv))"
  by (induction argv arbitrary: t)
     (simp_all add: escapeQuotes_def escapeQuotes_null length_escaped del: escapeQuotes_loop.simps)

lemma those_map_Some: "those (map Some xs) = Some xs"
  by (induction xs) simp_all

lemma c_string_map_Some:
  "NUL \<notin> set s \<Longrightarrow> c_string (map Some (s @ [NUL]) @ rest) = Some s"
  by (induction s) auto

lemma set_escaped: "set (escaped a) \<subseteq> set a \<union> {QUOTE, BACKSLASH}"
  by (induction a) auto

lemma NUL_quoted: "NUL \<notin> set a \<Longrightarrow> NUL \<notin> set (quoted a)"
  using set_escaped [of a] by (auto simp: quoted_def)

lemma NUL_later_args: "list_all (\<lambda>a. NUL \<notin> set a) argv \<Longrightarrow> NUL \<notin> set (later_args argv)"
  by (induction argv) (simp_all add: later_args_def NUL_quoted)

lemma NUL_shell_command:
  assumes "list_all (\<lambda>a. NUL \<notin> set a) argv"
  shows "NUL \<notin> set (shell_command argv)"
proof (cases argv)
  case Nil
  then show ?thesis by (simp add: shell_command_def)
next
  case (Cons a rest)
  then show ?thesis
    using assms NUL_quoted [of a] NUL_later_args [of rest] unfolding Cons shell_command_Cons
    by simp
qed

lemma spawnShell_fill_nonempty:
  assumes ok: "list_all (\<lambda>a. NUL \<notin> set a) (a # argv)"
    and fits: "length (shell_command (a # argv)) < length b"
  shows "\<exists>b'. spawnShell_fill (a # argv) b 0 = Some (b', length (shell_command (a # argv))) \<and>
          length b' = length b \<and>
          take (Suc (length (shell_command (a # argv)))) b' =
            map Some (shell_command (a # argv) @ [NUL])"
proof -
  let ?q = "quoted a" and ?l = "later_args argv"
  have a: "NUL \<notin> set a" and rest: "list_all (\<lambda>a. NUL \<notin> set a) argv"
    using ok by simp_all
  have cmd: "shell_command (a # argv) = ?q @ ?l" by (rule shell_command_Cons)
  have f1: "0 + length ([] @ ?q) < length b" using fits unfolding cmd by simp
  have sep: "(if (0::nat) \<noteq> 0 then stpcpy b 0 [SPACE] else Some (b, 0)) = Some (b, 0 + length ([]::string))"
    by simp
  from fill_one [OF a f1 sep] obtain b4 where
    b4: "spawnShell_fill (a # argv) b 0 = spawnShell_fill argv b4 (0 + length ([] @ ?q))"
        "length b4 = length b"
        "take (0 + length ([] @ ?q)) b4 = take 0 b @ map Some ([] @ ?q)"
        "b4 ! (0 + length ([] @ ?q)) = Some NUL"
    by auto
  have q0: "length ?q \<noteq> 0" by (simp add: quoted_def)
  have "length ?q + length ?l < length b4" using fits b4(2) unfolding cmd by simp
  from fill_later [OF rest q0 this] obtain b' where
    b': "spawnShell_fill argv b4 (length ?q) = Some (b', length ?q + length ?l)"
        "length b' = length b4"
        "take (length ?q + length ?l) b' = take (length ?q) b4 @ map Some ?l"
        "argv \<noteq> [] \<longrightarrow> b' ! (length ?q + length ?l) = Some NUL"
    by blast
  have last: "b' ! (length ?q + length ?l) = Some NUL"
  proof (cases argv)
    case Nil
    then show ?thesis using b'(1) b4(4) by (simp add: later_args_def)
  next
    case (Cons x xs)
    then show ?thesis using b'(4) by simp
  qed
  have body: "take (length (?q @ ?l)) b' = map Some (?q @ ?l)"
    using b'(3) b4(3) by simp
  have lt: "length (?q @ ?l) < length b'" using fits b'(2) b4(2) unfolding cmd by simp
  have "take (Suc (length (?q @ ?l))) b' = map Some (?q @ ?l) @ [Some NUL]"
    using take_Suc_conv_app_nth [OF lt] body last by simp
  then show ?thesis
    using b4(1,2) b'(1,2) unfolding cmd by simp
qed

lemma spawnShell_buffer_nonempty:
  assumes "c_strings argv" "argv \<noteq> []"
  shows "spawnShell_buffer argv =
           Some (map Some (shell_command argv @ [NUL]), length (shell_command argv))"
proof -
  obtain a rest where argv: "argv = a # rest" using assms(2) by (cases argv) auto
  have ok: "list_all (\<lambda>a. NUL \<notin> set a) (a # rest)"
    using assms(1) unfolding argv c_strings_iff .
  let ?n = "sum_list (map escaped_length argv) + length argv * 3"
  have n: "?n = Suc (length (shell_command argv))"
    using length_shell_command [OF assms(2)] by simp
  have "length (shell_command (a # rest)) < length (malloc ?n)"
    unfolding n argv [symmetric] by (simp add: malloc_def)
  from spawnShell_fill_nonempty [OF ok this] obtain b' where
    b': "spawnShell_fill argv (malloc ?n) 0 = Some (b', length (shell_command argv))"
        "length b' = length (malloc ?n)"
        "take (Suc (length (shell_command argv))) b' = map Some (shell_command argv @ [NUL])"
    unfolding argv by blast
  have "length b' = Suc (length (shell_command argv))"
    using b'(2) n by (simp add: malloc_def)
  then have "b' = map Some (shell_command argv @ [NUL])"
    using b'(3) by simp
  moreover have "spawnShell_total_len argv 0 = Some (sum_list (map escaped_length argv))"
    using spawnShell_total_len_eq [OF ok [folded argv], of 0] by simp
  ultimately show ?thesis
    using b'(1) by (simp add: spawnShell_buffer_def)
qed

lemma spawnShell_written_eq:
  assumes "c_strings argv"
  shows "spawnShell_written argv = Some (shell_command argv)"
proof (cases "argv = []")
  case True
  then show ?thesis
    by (simp add: spawnShell_written_def spawnShell_buffer_def shell_command_def)
next
  case False
  show ?thesis
    using spawnShell_buffer_nonempty [OF assms False]
    by (simp add: spawnShell_written_def those_map_Some)
qed

lemma spawnShell_string_eq:
  assumes "c_strings argv" "argv \<noteq> []"
  shows "spawnShell_string argv = Some (shell_command argv)"
proof -
  have "NUL \<notin> set (shell_command argv)"
    using assms(1) by (simp add: NUL_shell_command c_strings_iff)
  from c_string_map_Some [OF this, of "[]"] show ?thesis
    using spawnShell_buffer_nonempty [OF assms]
    by (simp add: spawnShell_string_def c_string_at_def)
qed

subsection \<open>Splitting the command string again\<close>

lemma sh_words_escaped:
  "sh_words SingleQuoted (Some w) (escaped a @ QUOTE # rest) = sh_words Unquoted (Some (w @ a)) rest"
  by (induction a arbitrary: w) (simp_all add: sh_extend_def)

lemma sh_words_quoted:
  "sh_words Unquoted cur (quoted a @ rest) =
     sh_words Unquoted (Some ((case cur of None \<Rightarrow> [] | Some w \<Rightarrow> w) @ a)) rest"
  by (simp add: quoted_def sh_extend_def sh_words_escaped)

lemma sh_words_later_args:
  "sh_words Unquoted (Some w) (later_args argv) = Some (w # argv)"
proof (induction argv arbitrary: w)
  case Nil
  then show ?case by (simp add: later_args_def)
next
  case (Cons a argv)
  have "later_args (a # argv) = SPACE # (quoted a @ later_args argv)"
    by (simp add: later_args_def)
  then show ?case
    by (simp add: sh_words_quoted Cons.IH)
qed

lemma posix_split_shell_command: "posix_split (shell_command argv) = Some argv"
proof (cases argv)
  case Nil
  then show ?thesis by (simp add: posix_split_def shell_command_def)
next
  case (Cons a rest)
  show ?thesis
    unfolding Cons posix_split_def shell_command_Cons
    by (simp add: sh_words_quoted sh_words_later_args)
qed

lemma memcpy_Some_D:
  "memcpy b i s = Some b' \<Longrightarrow> length b' = length b \<and> (s \<noteq> [] \<longrightarrow> i + length s \<le> length b)"
proof (induction s arbitrary: b i)
  case Nil
  then show ?case by simp
next
  case (Cons c s)
  then show ?case
    by (cases s) (fastforce simp: poke_def split: if_splits)+
qed

lemma stpcpy_Some_D:
  assumes "stpcpy b to s = Some (b', to')"
  shows "length b' = length b \<and> to' = to + length s \<and> to' < length b"
proof -
  from assms have "memcpy b to (s @ [NUL]) = Some b'" "to' = to + length s"
    by (auto simp: stpcpy_def)
  with memcpy_Some_D [of b to "s @ [NUL]" b'] show ?thesis by simp
qed

lemma escapeQuotes_Some_D:
  assumes "escapeQuotes_loop (Some d) a b len = Some (b', n)" "NUL \<notin> set a"
  shows "length b' = length b \<and> n = len + length (escaped a) \<and> d + n < length b"
  using assms
proof (induction a arbitrary: b len)
  case Nil
  then show ?case by (auto simp: escapeQuotes_end_def poke_def split: if_splits)
next
  case (Cons c a)
  have c: "c \<noteq> NUL" and a: "NUL \<notin> set a" using Cons.prems(2) by auto
  show ?case
  proof (cases "c = QUOTE")
    case True
    from Cons.prems(1) True obtain b1 where
      b1: "memcpy b (d + len) [QUOTE, BACKSLASH, QUOTE, QUOTE] = Some b1"
          "escapeQuotes_loop (Some d) a b1 (len + 4) = Some (b', n)"
      by (simp del: memcpy.simps split: option.splits)
    from memcpy_Some_D [OF b1(1)] Cons.IH [OF b1(2) a] True show ?thesis by simp
  next
    case False
    from Cons.prems(1) False c obtain b1 where
      b1: "poke b (d + len) c = Some b1"
          "escapeQuotes_loop (Some d) a b1 (len + 1) = Some (b', n)"
      by (simp split: option.splits)
    from b1(1) have "length b1 = length b" by (auto simp: poke_def split: if_splits)
    with Cons.IH [OF b1(2) a] False show ?thesis by simp
  qed
qed

lemma spawnShell_fill_Some_D:
  assumes "spawnShell_fill argv b to = Some (b', to')" "list_all (\<lambda>a. NUL \<notin> set a) argv"
  shows "length b' = length b \<and>
         to' = to + length (if to = 0 then shell_command argv else later_args argv) \<and>
         (argv \<noteq> [] \<longrightarrow> to' < length b)"
  using assms
proof (induction argv arbitrary: b to)
  case Nil
  then show ?case by (simp add: shell_command_def later_args_def)
next
  case (Cons a argv)
  have a: "NUL \<notin> set a" and rest: "list_all (\<lambda>a. NUL \<notin> set a) argv"
    using Cons.prems(2) by simp_all
  from Cons.prems(1) obtain b1 to1 b2 to2 b3 n b4 to4 where
    s1: "(if to \<noteq> 0 then stpcpy b to [SPACE] else Some (b, to)) = Some (b1, to1)" and
    s2: "stpcpy b1 to1 [QUOTE] = Some (b2, to2)" and
    s3: "escapeQuotes_loop (Some to2) a b2 0 = Some (b3, n)" and
    s4: "stpcpy b3 (to2 + n) [QUOTE] = Some (b4, to4)" and
    s5: "spawnShell_fill argv b4 to4 = Some (b', to')"
    by (auto simp: escapeQuotes_def simp del: escapeQuotes_loop.simps split: option.splits)
  have l1: "length b1 = length b" "to1 = to + (if to = 0 then 0 else 1)"
    using s1 stpcpy_Some_D [of b to "[SPACE]" b1 to1] by (auto split: if_splits)
  note l2 = stpcpy_Some_D [OF s2]
  note l3 = escapeQuotes_Some_D [OF s3 a]
  note l4 = stpcpy_Some_D [OF s4]
  note l5 = Cons.IH [OF s5 rest]
  have to4: "to4 = to1 + length (quoted a)" "to4 \<noteq> 0" "to4 < length b"
    using l1 l2 l3 l4 by (simp_all add: quoted_def)
  have len: "length b' = length b" using l1 l2 l3 l4 l5 by simp
  have to_eq: "to' = to4 + length (later_args argv)" using l5 to4(2) by simp
  have piece: "length (if to = 0 then shell_command (a # argv) else later_args (a # argv)) =
          (if to = 0 then 0 else 1) + length (quoted a) + length (later_args argv)"
    by (simp add: shell_command_Cons later_args_def)
  have "to' < length b"
  proof (cases argv)
    case Nil
    then show ?thesis using s5 to4(3) by simp
  next
    case (Cons x xs)
    then show ?thesis using l5 l1 l2 l3 l4 by simp
  qed
  then show ?case
    using len to_eq to4(1) l1(2) unfolding piece by simp
qed

lemma spawnShell_fill_too_small:
  assumes "c_strings argv" "argv \<noteq> []" "length b \<le> length (shell_command argv)"
  shows "spawnShell_fill argv b 0 = None"
proof (rule ccontr)
  assume "spawnShell_fill argv b 0 \<noteq> None"
  then obtain b' to' where "spawnShell_fill argv b 0 = Some (b', to')" by auto
  from spawnShell_fill_Some_D [OF this] assms show False
    by (simp add: c_strings_iff)
qed

subsection \<open>The claims about quoting\<close>

text \<open>
  C1. For every argument vector of C strings, the bytes that the fill loop of
  \<^verbatim>\<open>spawnShell\<close> writes between the start of the buffer and its write pointer are the
  command string of the quoting rule (each argument in single quotes, each single quote
  inside replaced by quote, backslash, quote, quote, single spaces between the arguments),
  and splitting that string by the quoting rules of the POSIX shell gives the argument
  vector back, whatever quotes, blanks or empty strings the arguments hold. For a vector
  that is not empty the nul-terminated string that is then sent is this command string.
\<close>

theorem quoting_round_trip:
  assumes "c_strings argv"
  shows "spawnShell_written argv = Some (shell_command argv) \<and>
         posix_split (shell_command argv) = Some argv \<and>
         (argv \<noteq> [] \<longrightarrow> spawnShell_string argv = Some (shell_command argv))"
  using spawnShell_written_eq [OF assms] posix_split_shell_command [of argv]
    spawnShell_string_eq [OF assms]
  by simp

text \<open>
  C1 at a vector with an embedded blank run, two adjacent quotes, an empty argument and an
  argument that is a single quote.
\<close>

theorem quoting_round_trip_witness:
  "c_strings [''a  b'', [CHR ''x'', QUOTE, QUOTE, CHR ''y''], [], [QUOTE]] \<and>
   Option.bind (spawnShell_written [''a  b'', [CHR ''x'', QUOTE, QUOTE, CHR ''y''], [], [QUOTE]])
     posix_split = Some [''a  b'', [CHR ''x'', QUOTE, QUOTE, CHR ''y''], [], [QUOTE]] \<and>
   Option.bind (spawnShell_string [''a  b'', [CHR ''x'', QUOTE, QUOTE, CHR ''y''], [], [QUOTE]])
     posix_split = Some [''a  b'', [CHR ''x'', QUOTE, QUOTE, CHR ''y''], [], [QUOTE]]"
proof -
  have h: "c_strings [''a  b'', [CHR ''x'', QUOTE, QUOTE, CHR ''y''], [], [QUOTE]]"
    by (simp add: c_strings_def)
  show ?thesis
    using h quoting_round_trip [OF h] by simp
qed

text \<open>
  C9. The vectors that \<^verbatim>\<open>spawnShell\<close> receives are not empty: \<^verbatim>\<open>main\<close> passes a
  null pointer when there is no argument (line 198) and otherwise a vector that starts with
  an argument or with the rooted path (lines 199, 228-233). For every such vector of C
  strings: \<^verbatim>\<open>escapeQuotes\<close> with a null destination returns
  the length of the argument plus three for each single quote; the first loop adds these
  to \<open>L\<close>; every store of the second loop lies inside the \<open>L + 3 * count\<close> bytes; the
  buffer then holds exactly the command string and its nul, which take \<open>L + 3 * count\<close>
  bytes; and in any smaller buffer a store of the loop falls outside.
\<close>

theorem spawnShell_buffer_exact:
  assumes "c_strings argv" "argv \<noteq> []"
  shows "list_all (\<lambda>a. escapeQuotes None a [] = Some ([], escaped_length a)) argv \<and>
         spawnShell_total_len argv 0 = Some (sum_list (map escaped_length argv)) \<and>
         spawnShell_buffer argv =
           Some (map Some (shell_command argv @ [NUL]), length (shell_command argv)) \<and>
         length (shell_command argv @ [NUL]) =
           sum_list (map escaped_length argv) + length argv * 3 \<and>
         (\<forall>b. length b < sum_list (map escaped_length argv) + length argv * 3 \<longrightarrow>
              spawnShell_fill argv b 0 = None)"
proof -
  have ok: "list_all (\<lambda>a. NUL \<notin> set a) argv"
    using assms(1) by (simp add: c_strings_iff)
  have each: "list_all (\<lambda>a. escapeQuotes None a [] = Some ([], escaped_length a)) argv"
    using ok by (induction argv) (simp_all add: escapeQuotes_def escapeQuotes_null length_escaped
        del: escapeQuotes_loop.simps)
  have total: "spawnShell_total_len argv 0 = Some (sum_list (map escaped_length argv))"
    using spawnShell_total_len_eq [OF ok, of 0] by simp
  have size: "length (shell_command argv @ [NUL]) =
                sum_list (map escaped_length argv) + length argv * 3"
    using length_shell_command [OF assms(2)] by simp
  have small: "spawnShell_fill argv b 0 = None"
    if "length b < sum_list (map escaped_length argv) + length argv * 3" for b
    using that size spawnShell_fill_too_small [OF assms, of b] by simp
  show ?thesis
    using each total size small spawnShell_buffer_nonempty [OF assms] by blast
qed

text \<open>C9 at the vector of \<open>ls\<close> and \<open>a'b\<close>: 8 escaped bytes, 14 allocated.\<close>

theorem spawnShell_buffer_exact_witness:
  "c_strings [''ls'', [CHR ''a'', QUOTE, CHR ''b'']] \<and>
   [''ls'', [CHR ''a'', QUOTE, CHR ''b'']] \<noteq> [] \<and>
   spawnShell_total_len [''ls'', [CHR ''a'', QUOTE, CHR ''b'']] 0 = Some 8 \<and>
   map_option (length \<circ> fst) (spawnShell_buffer [''ls'', [CHR ''a'', QUOTE, CHR ''b'']]) = Some 14 \<and>
   spawnShell_fill [''ls'', [CHR ''a'', QUOTE, CHR ''b'']] (malloc 13) 0 = None"
proof -
  have h: "c_strings [''ls'', [CHR ''a'', QUOTE, CHR ''b'']]"
    by (simp add: c_strings_def)
  have n: "[''ls'', [CHR ''a'', QUOTE, CHR ''b'']] \<noteq> []" by simp
  have l: "length (malloc 13) < sum_list (map escaped_length [''ls'', [CHR ''a'', QUOTE, CHR ''b'']])
             + length [''ls'', [CHR ''a'', QUOTE, CHR ''b'']] * 3"
    by (simp add: malloc_def escaped_length_def)
  show ?thesis
    using h n l spawnShell_buffer_exact [OF h n]
    by (simp add: escaped_length_def shell_command_def)
qed

text \<open>
  No store leaves the allocation for any vector of C strings, the empty one included: the
  fill loop ends with the buffer of \<open>L + 3 * count\<close> bytes and the write pointer behind
  the command string.
\<close>

lemma spawnShell_buffer_in_bounds:
  assumes "c_strings argv"
  shows "\<exists>b. spawnShell_buffer argv = Some (b, length (shell_command argv)) \<and>
             length b = sum_list (map escaped_length argv) + length argv * 3"
proof (cases "argv = []")
  case True
  then show ?thesis
    by (simp add: spawnShell_buffer_def shell_command_def malloc_def)
next
  case False
  show ?thesis
    using spawnShell_buffer_nonempty [OF assms False] length_shell_command [OF False]
    by simp
qed

text \<open>
  The empty vector, which \<^verbatim>\<open>spawnShell\<close> never receives from \<^verbatim>\<open>main\<close>: nothing is
  stored, so the buffer of no bytes holds no terminated string for
  \<^verbatim>\<open>pushShellspawnCommand\<close> to measure.
\<close>

lemma spawnShell_empty_vector_stores_nothing:
  "spawnShell_buffer [] = Some (malloc 0, 0) \<and> spawnShell_string [] = None"
  by (simp add: spawnShell_buffer_def spawnShell_string_def malloc_def c_string_at_def)

section \<open>The socket address\<close>

lemma c_str_id: "NUL \<notin> set s \<Longrightarrow> c_str s = s"
  by (auto simp: c_str_def takeWhile_eq_all_conv)

lemma c_string_prefix:
  assumes "NUL \<notin> set s" "length s < length b" "take (Suc (length s)) b = map Some (s @ [NUL])"
  shows "c_string b = Some s"
proof -
  have "b = map Some (s @ [NUL]) @ drop (Suc (length s)) b"
    using assms(3) append_take_drop_id [of "Suc (length s)" b] by simp
  then show ?thesis
    using c_string_map_Some [OF assms(1), of "drop (Suc (length s)) b"] by simp
qed

lemma sun_path_result:
  assumes p: "NUL \<notin> set pre" and s: "NUL \<notin> set sockpath"
    and fits: "length pre + length sockpath < sun_path_size"
  shows "\<exists>b. sun_path pre sockpath = Some b \<and> length b = sun_path_size \<and>
           take (Suc (length (pre @ sockpath))) b = map Some ((pre @ sockpath) @ [NUL])"
proof -
  let ?b0 = "(malloc sun_path_size)[0 := Some NUL]"
  have b0: "poke (malloc sun_path_size) 0 NUL = Some ?b0"
    by (simp add: poke_def malloc_def sun_path_size_def)
  have len0: "length ?b0 = sun_path_size" by (simp add: malloc_def)
  have "0 + length (pre @ [NUL]) \<le> length ?b0" using fits len0 by simp
  from memcpy_in_bounds [OF this] obtain b1 where
    b1: "memcpy ?b0 0 (pre @ [NUL]) = Some b1" "length b1 = length ?b0"
        "take (0 + length (pre @ [NUL])) b1 = take 0 ?b0 @ map Some (pre @ [NUL])"
    by blast
  have t1: "take (Suc (length pre)) b1 = map Some (pre @ [NUL])"
    using b1(3) by simp
  have c1: "c_string b1 = Some pre"
    using c_string_prefix [OF p _ t1] fits b1(2) len0 by simp
  have "length pre + length (sockpath @ [NUL]) \<le> length b1"
    using fits b1(2) len0 by simp
  from memcpy_in_bounds [OF this] obtain b2 where
    b2: "memcpy b1 (length pre) (sockpath @ [NUL]) = Some b2" "length b2 = length b1"
        "take (length pre + length (sockpath @ [NUL])) b2 =
           take (length pre) b1 @ map Some (sockpath @ [NUL])"
    by blast
  have "take (length pre) (take (Suc (length pre)) b1) = map Some pre"
    unfolding t1 by simp
  then have t1': "take (length pre) b1 = map Some pre"
    by (simp add: min_def)
  have t2: "take (Suc (length (pre @ sockpath))) b2 = map Some ((pre @ sockpath) @ [NUL])"
    using b2(3) t1' by simp
  have "sun_path pre sockpath = Some b2"
    using b0 b1(1) c1 b2(1) p s
    by (simp add: sun_path_def strcpy_def strcat_def c_str_id del: memcpy.simps)
  then show ?thesis using t2 b2(2) b1(2) len0 by simp
qed

text \<open>
  C4, as the code has it. For a prefix and a socket path that are C strings and fit into
  \<^verbatim>\<open>sun_path\<close>, the address holds the prefix followed by the socket path and a nul: it
  is a pathname address. The nul that line 556 stores in the first byte is overwritten by
  \<^verbatim>\<open>strcpy\<close>, so the first byte is not nul unless both strings are empty.
\<close>

theorem sun_path_is_pathname:
  assumes "NUL \<notin> set pre" "NUL \<notin> set sockpath"
    and "length pre + length sockpath < sun_path_size"
  shows "Option.bind (sun_path pre sockpath) c_string = Some (pre @ sockpath) \<and>
         (pre @ sockpath \<noteq> [] \<longrightarrow>
            map_option abstract_address (sun_path pre sockpath) = Some False)"
proof -
  from sun_path_result [OF assms] obtain b where
    b: "sun_path pre sockpath = Some b" "length b = sun_path_size"
       "take (Suc (length (pre @ sockpath))) b = map Some ((pre @ sockpath) @ [NUL])"
    by blast
  have nul: "NUL \<notin> set (pre @ sockpath)" using assms(1,2) by simp
  have lt: "length (pre @ sockpath) < length b" using assms(3) b(2) by simp
  have str: "c_string b = Some (pre @ sockpath)"
    using c_string_prefix [OF nul lt b(3)] .
  have "\<not> abstract_address b" if ne: "pre @ sockpath \<noteq> []"
  proof -
    obtain c cs where ccs: "pre @ sockpath = c # cs" using ne by (cases "pre @ sockpath") auto
    then have "c \<noteq> NUL" using nul by (metis list.set_intros(1))
    moreover have "take (Suc (length (c # cs))) b = Some c # map Some (cs @ [NUL])"
      using b(3) unfolding ccs by simp
    then have "\<exists>rest. b = Some c # rest"
      by (cases b) auto
    ultimately show ?thesis by (auto simp: abstract_address_def)
  qed
  then show ?thesis using b(1) str by simp
qed

text \<open>C4 at the prefix \<open>/home/u/.darling\<close> and the socket path \<open>/var/run/shellspawn.sock\<close>.\<close>

theorem sun_path_is_pathname_witness:
  "NUL \<notin> set ''/home/u/.darling'' \<and> NUL \<notin> set ''/var/run/shellspawn.sock'' \<and>
   length ''/home/u/.darling'' + length ''/var/run/shellspawn.sock'' < sun_path_size \<and>
   Option.bind (sun_path ''/home/u/.darling'' ''/var/run/shellspawn.sock'') c_string =
     Some ''/home/u/.darling/var/run/shellspawn.sock''"
proof -
  have h1: "NUL \<notin> set ''/home/u/.darling''" by simp
  have h2: "NUL \<notin> set ''/var/run/shellspawn.sock''" by simp
  have h3: "length ''/home/u/.darling'' + length ''/var/run/shellspawn.sock'' < sun_path_size"
    by (simp add: sun_path_size_def)
  show ?thesis
    using h1 h2 h3 sun_path_is_pathname [OF h1 h2 h3] by simp
qed

text \<open>
  C4 as stated fails: for this prefix the first byte of \<^verbatim>\<open>sun_path\<close> is the slash of
  the prefix, not a nul, and the kernel reads the address as a pathname.
\<close>

theorem sun_path_first_byte_not_nul:
  "map_option (\<lambda>b. b ! 0) (sun_path ''/home/u/.darling'' ''/var/run/shellspawn.sock'') =
     Some (Some (CHR ''/'')) \<and>
   map_option abstract_address (sun_path ''/home/u/.darling'' ''/var/run/shellspawn.sock'') =
     Some False"
  by (simp add: sun_path_def sun_path_size_def malloc_def poke_def strcpy_def strcat_def
      c_str_def abstract_address_def numeral_eq_Suc)

section \<open>Process state and the signal handler\<close>

lemma exit_with_simps [simp]:
  "running p \<Longrightarrow> halted (exit_with n p) = Some (Exit n)"
  "sent (exit_with n p) = sent p" "syscalls (exit_with n p) = syscalls p"
  "master (exit_with n p) = master p" "sockfd (exit_with n p) = sockfd p"
  "fds (exit_with n p) = fds p" "blocked (exit_with n p) = blocked p"
  "\<not> running (exit_with n p)"
  by (auto simp: exit_with_def running_def)

lemma undefined_behaviour_simps [simp]:
  "running p \<Longrightarrow> halted (undefined_behaviour p) = Some Undefined"
  "sent (undefined_behaviour p) = sent p" "syscalls (undefined_behaviour p) = syscalls p"
  "master (undefined_behaviour p) = master p" "sockfd (undefined_behaviour p) = sockfd p"
  "fds (undefined_behaviour p) = fds p" "blocked (undefined_behaviour p) = blocked p"
  "\<not> running (undefined_behaviour p)"
  by (auto simp: undefined_behaviour_def running_def)

lemma did_simps [simp]:
  "halted (did cs p) = halted p" "sent (did cs p) = sent p"
  "running p \<Longrightarrow> syscalls (did cs p) = syscalls p @ cs"
  "master (did cs p) = master p" "sockfd (did cs p) = sockfd p"
  "fds (did cs p) = fds p" "blocked (did cs p) = blocked p"
  "running (did cs p) = running p"
  by (auto simp: did_def running_def)

lemma not_running_simps [simp]:
  "\<not> running p \<Longrightarrow> exit_with n p = p"
  "\<not> running p \<Longrightarrow> undefined_behaviour p = p"
  "\<not> running p \<Longrightarrow> did cs p = p"
  "\<not> running p \<Longrightarrow> pushShellspawnCommandData e t bs p = p"
  "\<not> running p \<Longrightarrow> pushShellspawnCommand e t v p = p"
  "\<not> running p \<Longrightarrow> pushShellspawnCommandFDs e t fs p = p"
  by (auto simp: exit_with_def undefined_behaviour_def did_def pushShellspawnCommandData_def
      pushShellspawnCommand_def pushShellspawnCommandFDs_def split: option.splits)

lemma pushData_fields [simp]:
  "master (pushShellspawnCommandData e t bs p) = master p"
  "sockfd (pushShellspawnCommandData e t bs p) = sockfd p"
  "fds (pushShellspawnCommandData e t bs p) = fds p"
  "blocked (pushShellspawnCommandData e t bs p) = blocked p"
  "syscalls (pushShellspawnCommandData e t bs p) = syscalls p"
  by (simp_all add: pushShellspawnCommandData_def)

lemma pushData_running:
  "running p \<Longrightarrow> write_complete e (length (sent p)) \<Longrightarrow>
   running (pushShellspawnCommandData e t bs p) \<and>
   sent (pushShellspawnCommandData e t bs p) =
     sent p @ [\<lparr>cmd = t, data_length = length bs, data = bs, rights = []\<rparr>]"
  by (simp add: pushShellspawnCommandData_def running_def)

lemma pushData_short:
  "running p \<Longrightarrow> \<not> write_complete e (length (sent p)) \<Longrightarrow>
   halted (pushShellspawnCommandData e t bs p) = Some (Exit 1) \<and>
   sent (pushShellspawnCommandData e t bs p) = sent p"
  by (simp add: pushShellspawnCommandData_def)

text \<open>
  C5, as the code has it. On \<^verbatim>\<open>SIGWINCH\<close> with a pty the handler reads the size of the
  real terminal and applies it to the pty master, and then goes on to the common end of the
  handler, which writes a \<^verbatim>\<open>Signal\<close> command carrying \<^verbatim>\<open>SIGWINCH\<close> to the channel
  (the process ends with status 1 when that write is short).
\<close>

theorem sigwinch_is_forwarded:
  assumes "running p" "master p \<noteq> - 1"
  shows "syscalls (signalHandler e SIGWINCH ws p) =
           syscalls p @ [Ioctl_TIOCGWINSZ 0, Ioctl_TIOCSWINSZ (master p) ws] \<and>
         (if write_complete e (length (sent p))
          then sent (signalHandler e SIGWINCH ws p) = sent p @ [signal_message SIGWINCH] \<and>
               halted (signalHandler e SIGWINCH ws p) = None
          else sent (signalHandler e SIGWINCH ws p) = sent p \<and>
               halted (signalHandler e SIGWINCH ws p) = Some (Exit 1))"
proof (cases "write_complete e (length (sent p))")
  case True
  then show ?thesis
    using assms pushData_running [of "did [Ioctl_TIOCGWINSZ 0, Ioctl_TIOCSWINSZ (master p) ws] p" e]
    by (simp add: signalHandler_def signal_message_def running_def int_bytes_def)
next
  case False
  then show ?thesis
    using assms pushData_short [of "did [Ioctl_TIOCGWINSZ 0, Ioctl_TIOCSWINSZ (master p) ws] p" e]
    by (simp add: signalHandler_def)
qed

text \<open>C5 for a process with the channel on descriptor 3 and the pty master on 5.\<close>

theorem sigwinch_is_forwarded_witness:
  "running (start\<lparr>sockfd := 3, master := 5\<rparr>) \<and> master (start\<lparr>sockfd := 3, master := 5\<rparr>) \<noteq> - 1 \<and>
   syscalls (signalHandler (sample_env True []) SIGWINCH (40, 132) (start\<lparr>sockfd := 3, master := 5\<rparr>)) =
     [Ioctl_TIOCGWINSZ 0, Ioctl_TIOCSWINSZ 5 (40, 132)] \<and>
   sent (signalHandler (sample_env True []) SIGWINCH (40, 132) (start\<lparr>sockfd := 3, master := 5\<rparr>)) =
     [signal_message SIGWINCH]"
proof -
  have h1: "running (start\<lparr>sockfd := 3, master := 5\<rparr>)"
    by (simp add: running_def start_def)
  have h2: "master (start\<lparr>sockfd := 3, master := 5\<rparr>) \<noteq> - 1"
    by simp
  show ?thesis
    using h1 h2 sigwinch_is_forwarded [OF h1 h2, of "sample_env True []" "(40, 132)"]
    by (simp add: sample_env_def start_def)
qed

text \<open>
  C5 as stated fails: the handler does write a \<^verbatim>\<open>Signal\<close> command for \<^verbatim>\<open>SIGWINCH\<close>
  (number 28) to the channel.
\<close>

theorem sigwinch_signal_command_written:
  "sent (signalHandler (sample_env True []) SIGWINCH (40, 132) (start\<lparr>sockfd := 3, master := 5\<rparr>)) =
     [\<lparr>cmd = SHELLSPAWN_SIGNAL, data_length = 4, data = [CHR 0x1C, NUL, NUL, NUL], rights = []\<rparr>]"
  by code_simp

section \<open>The event loop\<close>

lemma signalHandler_not_running [simp]: "\<not> running p \<Longrightarrow> signalHandler e signo ws p = p"
  by (simp add: signalHandler_def Let_def)

lemma signalHandler_fields [simp]:
  "master (signalHandler e signo ws p) = master p"
  "sockfd (signalHandler e signo ws p) = sockfd p"
  "fds (signalHandler e signo ws p) = fds p"
  "blocked (signalHandler e signo ws p) = blocked p"
  by (simp_all add: signalHandler_def Let_def)

lemma fold_signalHandler_not_running:
  "\<not> running p \<Longrightarrow> fold (\<lambda>(signo, ws). signalHandler e signo ws) sigs p = p"
  by (induction sigs) (auto simp: case_prod_beta)

lemma fold_signalHandler_fields:
  "master (fold (\<lambda>(signo, ws). signalHandler e signo ws) sigs p) = master p \<and>
   sockfd (fold (\<lambda>(signo, ws). signalHandler e signo ws) sigs p) = sockfd p \<and>
   fds (fold (\<lambda>(signo, ws). signalHandler e signo ws) sigs p) = fds p \<and>
   blocked (fold (\<lambda>(signo, ws). signalHandler e signo ws) sigs p) = blocked p"
  by (induction sigs arbitrary: p) (auto simp: case_prod_beta)

lemma deliver_signals_not_running [simp]: "\<not> running p \<Longrightarrow> deliver_signals e r p = p"
  by (simp add: deliver_signals_def fold_signalHandler_not_running)

lemma deliver_signals_fields [simp]:
  "master (deliver_signals e r p) = master p"
  "sockfd (deliver_signals e r p) = sockfd p"
  "fds (deliver_signals e r p) = fds p"
  "blocked (deliver_signals e r p) = blocked p"
  by (simp_all add: deliver_signals_def fold_signalHandler_fields)

lemma deliver_no_signals [simp]: "signals r = [] \<Longrightarrow> deliver_signals e r p = p"
  by (simp add: deliver_signals_def)

lemma drain_master_fields:
  "halted (drain_master rs p) = halted p \<and> sent (drain_master rs p) = sent p \<and>
   master (drain_master rs p) = master p \<and> sockfd (drain_master rs p) = sockfd p \<and>
   fds (drain_master rs p) = fds p \<and> blocked (drain_master rs p) = blocked p"
  by (induction rs p rule: drain_master.induct) (simp_all add: Let_def)

lemma drain_master_running [simp]: "running (drain_master rs p) = running p"
  using drain_master_fields [of rs p] by (simp add: running_def)

lemma drain_master_not_running [simp]: "\<not> running p \<Longrightarrow> drain_master rs p = p"
  by (induction rs p rule: drain_master.induct) (simp_all add: Let_def)

lemma master_branch_fields [simp]:
  "halted (master_branch r p) = halted p" "sent (master_branch r p) = sent p"
  "master (master_branch r p) = master p" "sockfd (master_branch r p) = sockfd p"
  "fds (master_branch r p) = fds p" "blocked (master_branch r p) = blocked p"
  "running (master_branch r p) = running p"
  using drain_master_fields [of "master_reads r" p] by (simp_all add: master_branch_def)

lemma master_branch_not_running [simp]: "\<not> running p \<Longrightarrow> master_branch r p = p"
  by (simp add: master_branch_def)

lemma stdin_step_fields:
  "sent (fst (stdin_step q res p)) = sent p \<and> master (fst (stdin_step q res p)) = master p \<and>
   sockfd (fst (stdin_step q res p)) = sockfd p \<and> fds (fst (stdin_step q res p)) = fds p \<and>
   blocked (fst (stdin_step q res p)) = blocked p"
  by (simp add: stdin_step_def Let_def split: option.splits read_result.splits)

lemma stdin_step_not_running: "\<not> running p \<Longrightarrow> fst (stdin_step q res p) = p"
  by (simp add: stdin_step_def Let_def split: option.splits read_result.splits)

lemma drain_stdin_fields:
  "sent (drain_stdin script p) = sent p \<and> master (drain_stdin script p) = master p \<and>
   sockfd (drain_stdin script p) = sockfd p \<and> fds (drain_stdin script p) = fds p \<and>
   blocked (drain_stdin script p) = blocked p"
proof (induction script arbitrary: p)
  case Nil
  then show ?case using stdin_step_fields [of "Some 0" "RdBytes []" p] by simp
next
  case (Cons step script)
  obtain q res where step: "step = (q, res)" by (cases step)
  obtain p1 again where s: "stdin_step q res p = (p1, again)" by (cases "stdin_step q res p")
  show ?case
    using Cons.IH [of p1] stdin_step_fields [of q res p] s unfolding step by simp
qed

lemma drain_stdin_not_running [simp]: "\<not> running p \<Longrightarrow> drain_stdin script p = p"
proof (induction script arbitrary: p)
  case Nil
  then show ?case using stdin_step_not_running [of p "Some 0" "RdBytes []"] by simp
next
  case (Cons step script)
  obtain q res where step: "step = (q, res)" by (cases step)
  obtain p1 again where s: "stdin_step q res p = (p1, again)" by (cases "stdin_step q res p")
  have "p1 = p" using stdin_step_not_running [OF Cons.prems, of q res] s by simp
  then show ?case using Cons s unfolding step by simp
qed

lemma stdin_branch_fields [simp]:
  "sent (stdin_branch r p) = sent p" "master (stdin_branch r p) = master p"
  "sockfd (stdin_branch r p) = sockfd p" "fds (stdin_branch r p) = fds p"
  "blocked (stdin_branch r p) = blocked p"
  using drain_stdin_fields [of "stdin_reads r" p] by (simp_all add: stdin_branch_def)

lemma stdin_branch_not_running [simp]: "\<not> running p \<Longrightarrow> stdin_branch r p = p"
  by (simp add: stdin_branch_def)

lemma read_exit_status_fields [simp]:
  "sent (read_exit_status res p) = sent p" "master (read_exit_status res p) = master p"
  "sockfd (read_exit_status res p) = sockfd p" "fds (read_exit_status res p) = fds p"
  "blocked (read_exit_status res p) = blocked p"
  by (simp_all add: read_exit_status_def Let_def split: read_result.splits)

lemma read_exit_status_not_running [simp]: "\<not> running p \<Longrightarrow> read_exit_status res p = p"
  by (simp add: read_exit_status_def Let_def split: read_result.splits)

lemma read_exit_status_running:
  assumes "running p"
  shows "halted (read_exit_status res p) = Some (Exit (channel_status res)) \<and>
         syscalls (read_exit_status res p) = syscalls p @ [Read (sockfd p) 4]"
  using assms
  by (auto simp: read_exit_status_def channel_status_def Let_def split: read_result.splits)

lemma channel_branch_fields [simp]:
  "sent (channel_branch r p) = sent p" "master (channel_branch r p) = master p"
  "sockfd (channel_branch r p) = sockfd p" "fds (channel_branch r p) = fds p"
  "blocked (channel_branch r p) = blocked p"
  by (simp_all add: channel_branch_def)

lemma channel_branch_not_running [simp]: "\<not> running p \<Longrightarrow> channel_branch r p = p"
  by (simp add: channel_branch_def)

lemma shellLoop_not_running [simp]: "\<not> running p \<Longrightarrow> shellLoop e rs p = p"
  by (cases rs) simp_all

lemma halted_not_running: "halted p = Some h \<Longrightarrow> \<not> running p"
  by (simp add: running_def)

text \<open>
  C7, as the code has it. The check of the channel is the last step of an iteration: a
  short write in a signal handler or a failing read of standard input ends the process
  before it. When an iteration reaches the check with the process still running and the
  channel reported readable or hung up, the loop reads four bytes from the channel and ends
  the process: with the status read when four bytes arrived, with status 1 after a short
  read, no byte or an error.
\<close>

theorem channel_ready_ends_process:
  assumes "running p0" "poll_rc r \<noteq> PollFailed"
    and "running (stdin_branch r (master_branch r (deliver_signals e r p0)))"
    and "revents0 r AND (POLLHUP OR POLLIN) \<noteq> 0"
  shows "halted (shellLoop e (r # rs) p0) = Some (Exit (channel_status (sock_read r))) \<and>
         syscalls (shellLoop e (r # rs) p0) =
           syscalls (stdin_branch r (master_branch r (deliver_signals e r p0))) @
             [Read (sockfd p0) 4] \<and>
         sent (shellLoop e (r # rs) p0) = sent (deliver_signals e r p0)"
proof -
  let ?p1 = "deliver_signals e r p0"
  let ?p3 = "stdin_branch r (master_branch r ?p1)"
  let ?p4 = "channel_branch r ?p3"
  have p1: "running ?p1"
  proof (rule ccontr)
    assume "\<not> running ?p1"
    then have "?p3 = ?p1" by simp
    with assms(3) \<open>\<not> running ?p1\<close> show False by simp
  qed
  have p4: "?p4 = read_exit_status (sock_read r) ?p3"
    using assms(4) by (simp add: channel_branch_def)
  have h: "halted ?p4 = Some (Exit (channel_status (sock_read r)))"
    and s: "syscalls ?p4 = syscalls ?p3 @ [Read (sockfd p0) 4]"
    using read_exit_status_running [OF assms(3), of "sock_read r"] unfolding p4 by simp_all
  have "\<not> running ?p4" using h by (rule halted_not_running)
  then have "shellLoop e (r # rs) p0 = ?p4"
    using assms(1,2) p1 by (simp add: Let_def)
  then show ?thesis using h s by simp
qed

text \<open>C7 for a hang-up on the channel with the status 7 waiting to be read.\<close>

theorem channel_ready_ends_process_witness:
  "running (start\<lparr>sockfd := 3\<rparr>) \<and>
   poll_rc (quiet_round\<lparr>revents0 := 0x10, sock_read := RdBytes (int_bytes 7)\<rparr>) \<noteq> PollFailed \<and>
   running (stdin_branch (quiet_round\<lparr>revents0 := 0x10, sock_read := RdBytes (int_bytes 7)\<rparr>)
     (master_branch (quiet_round\<lparr>revents0 := 0x10, sock_read := RdBytes (int_bytes 7)\<rparr>)
       (deliver_signals (sample_env False []) (quiet_round\<lparr>revents0 := 0x10, sock_read := RdBytes (int_bytes 7)\<rparr>)
          (start\<lparr>sockfd := 3\<rparr>)))) \<and>
   revents0 (quiet_round\<lparr>revents0 := 0x10, sock_read := RdBytes (int_bytes 7)\<rparr>) AND (POLLHUP OR POLLIN) \<noteq> 0 \<and>
   halted (shellLoop (sample_env False [])
     [quiet_round\<lparr>revents0 := 0x10, sock_read := RdBytes (int_bytes 7)\<rparr>] (start\<lparr>sockfd := 3\<rparr>)) =
     Some (Exit 7)"
proof -
  let ?r = "quiet_round\<lparr>revents0 := 0x10, sock_read := RdBytes (int_bytes 7)\<rparr>"
  let ?p = "start\<lparr>sockfd := 3\<rparr>"
  let ?e = "sample_env False []"
  have h1: "running ?p" by (simp add: running_def start_def)
  have h2: "poll_rc ?r \<noteq> PollFailed" by (simp add: quiet_round_def)
  have h3: "running (stdin_branch ?r (master_branch ?r (deliver_signals ?e ?r ?p)))"
    by code_simp
  have h4: "revents0 ?r AND (POLLHUP OR POLLIN) \<noteq> 0" by code_simp
  have st: "channel_status (sock_read ?r) = 7" by code_simp
  show ?thesis
    using h1 h2 h3 h4 channel_ready_ends_process [OF h1 h2 h3 h4, of "[]"] st by simp
qed

text \<open>
  C7 as stated fails: here the channel is readable and hung up with the status 0 waiting,
  but standard input is readable too and its read fails, so the process ends with status 1
  and the only system calls are the query of the queued bytes and the read of standard
  input; the channel is never read.
\<close>

theorem channel_ready_but_stdin_fails_first:
  "revents0 (quiet_round\<lparr>revents0 := 0x11, revents1 := 1, stdin_reads := [(Some 5, RdErr)],
       sock_read := RdBytes (int_bytes 0)\<rparr>) AND (POLLHUP OR POLLIN) \<noteq> 0 \<and>
   channel_status (sock_read (quiet_round\<lparr>revents0 := 0x11, revents1 := 1,
       stdin_reads := [(Some 5, RdErr)], sock_read := RdBytes (int_bytes 0)\<rparr>)) = 0 \<and>
   halted (shellLoop (sample_env True [])
     [quiet_round\<lparr>revents0 := 0x11, revents1 := 1, stdin_reads := [(Some 5, RdErr)],
       sock_read := RdBytes (int_bytes 0)\<rparr>] (start\<lparr>sockfd := 3, master := 5\<rparr>)) =
     Some (Exit 1) \<and>
   syscalls (shellLoop (sample_env True [])
     [quiet_round\<lparr>revents0 := 0x11, revents1 := 1, stdin_reads := [(Some 5, RdErr)],
       sock_read := RdBytes (int_bytes 0)\<rparr>] (start\<lparr>sockfd := 3, master := 5\<rparr>)) =
     [Ioctl_FIONREAD 0, Read 0 5]"
  by code_simp

text \<open>
  C10. With a pty in use, when standard input is reported readable and the read that
  follows returns an error or no byte, the process ends with status 1 at once: after the
  master branch the only system calls are the query of the queued bytes and that read, so
  the channel is not read.
\<close>

theorem stdin_read_failure_exits:
  assumes "running p0" "poll_rc r \<noteq> PollFailed" "running (deliver_signals e r p0)"
    and "master p0 \<noteq> - 1" "revents1 r AND POLLIN \<noteq> 0"
    and "stdin_reads r = (Some rd, res) # rest"
    and "read_failed (fionread_request rd) res"
  shows "halted (shellLoop e (r # rs) p0) = Some (Exit 1) \<and>
         syscalls (shellLoop e (r # rs) p0) =
           syscalls (master_branch r (deliver_signals e r p0)) @
             [Ioctl_FIONREAD 0, Read 0 (fionread_request rd)] \<and>
         sent (shellLoop e (r # rs) p0) = sent (deliver_signals e r p0)"
proof -
  let ?p1 = "deliver_signals e r p0"
  let ?p2 = "master_branch r ?p1"
  let ?n = "fionread_request rd"
  let ?q = "exit_with 1 (did [Ioctl_FIONREAD 0, Read 0 ?n] ?p2)"
  have p2: "running ?p2" using assms(3) by simp
  have step: "stdin_step (Some rd) res ?p2 = (?q, False)"
    using assms(7) by (auto simp: stdin_step_def read_failed_def Let_def split: read_result.splits)
  have p3: "stdin_branch r ?p2 = ?q"
    using assms(4,5,6) step by (simp add: stdin_branch_def)
  have nr: "\<not> running ?q" by simp
  have "shellLoop e (r # rs) p0 = ?q"
    using assms(1,2,3) nr unfolding shellLoop.simps Let_def p3 by simp
  then show ?thesis using p2 by simp
qed

text \<open>
  C10 at end of file on standard input while the broker's status is already readable on
  the channel.
\<close>

theorem stdin_read_failure_exits_witness:
  "running (start\<lparr>sockfd := 3, master := 5\<rparr>) \<and>
   poll_rc (quiet_round\<lparr>revents0 := 1, revents1 := 1, stdin_reads := [(Some 0, RdBytes [])],
       sock_read := RdBytes (int_bytes 0)\<rparr>) \<noteq> PollFailed \<and>
   running (deliver_signals (sample_env True [])
     (quiet_round\<lparr>revents0 := 1, revents1 := 1, stdin_reads := [(Some 0, RdBytes [])],
       sock_read := RdBytes (int_bytes 0)\<rparr>) (start\<lparr>sockfd := 3, master := 5\<rparr>)) \<and>
   master (start\<lparr>sockfd := 3, master := 5\<rparr>) \<noteq> - 1 \<and>
   revents1 (quiet_round\<lparr>revents0 := 1, revents1 := 1, stdin_reads := [(Some 0, RdBytes [])],
       sock_read := RdBytes (int_bytes 0)\<rparr>) AND POLLIN \<noteq> 0 \<and>
   read_failed (fionread_request 0) (RdBytes []) \<and>
   halted (shellLoop (sample_env True [])
     [quiet_round\<lparr>revents0 := 1, revents1 := 1, stdin_reads := [(Some 0, RdBytes [])],
       sock_read := RdBytes (int_bytes 0)\<rparr>] (start\<lparr>sockfd := 3, master := 5\<rparr>)) = Some (Exit 1) \<and>
   syscalls (shellLoop (sample_env True [])
     [quiet_round\<lparr>revents0 := 1, revents1 := 1, stdin_reads := [(Some 0, RdBytes [])],
       sock_read := RdBytes (int_bytes 0)\<rparr>] (start\<lparr>sockfd := 3, master := 5\<rparr>)) =
     [Ioctl_FIONREAD 0, Read 0 0]"
proof -
  let ?r = "quiet_round\<lparr>revents0 := 1, revents1 := 1, stdin_reads := [(Some 0, RdBytes [])],
       sock_read := RdBytes (int_bytes 0)\<rparr>"
  let ?p = "start\<lparr>sockfd := 3, master := 5\<rparr>"
  let ?e = "sample_env True []"
  have h1: "running ?p" by (simp add: running_def start_def)
  have h2: "poll_rc ?r \<noteq> PollFailed" by (simp add: quiet_round_def)
  have h3: "running (deliver_signals ?e ?r ?p)" by (simp add: quiet_round_def h1)
  have h4: "master ?p \<noteq> - 1" by simp
  have h5: "revents1 ?r AND POLLIN \<noteq> 0" by code_simp
  have h6: "stdin_reads ?r = (Some 0, RdBytes []) # []" by simp
  have h7: "read_failed (fionread_request 0) (RdBytes [])" by (simp add: read_failed_def)
  have sc: "syscalls (master_branch ?r (deliver_signals ?e ?r ?p)) = []" by code_simp
  have fr: "fionread_request 0 = 0" by (simp add: fionread_request_def)
  show ?thesis
    using h1 h2 h3 h4 h5 h7 stdin_read_failure_exits [OF h1 h2 h3 h4 h5 h6 h7, of "[]"] sc fr
    by simp
qed

lemma of_char_char_of_word: "(of_char (char_of (n::nat)) :: 32 word) = word_of_nat (n mod 256)"
proof -
  have "(of_char (char_of n) :: 32 word) = of_nat (of_char (char_of n))"
    by (simp only: of_nat_of_char)
  then show ?thesis by (simp add: of_char_of)
qed

lemma split_bytes:
  fixes n :: nat
  assumes "n < 4294967296"
  shows "n mod 256 + 256 * (n div 256 mod 256) + 65536 * (n div 65536 mod 256)
          + 16777216 * (n div 16777216 mod 256) = n"
proof -
  have a: "n div 16777216 mod 256 = n div 16777216" using assms by simp
  have b0: "n div 65536 div 256 = n div 16777216" "n div 256 div 256 = n div 65536"
    by (simp_all add: div_mult2_eq [symmetric])
  have b: "n div 65536 = 256 * (n div 65536 div 256) + n div 65536 mod 256"
    by simp
  have c: "n div 256 = 256 * (n div 256 div 256) + n div 256 mod 256"
    by simp
  have d: "n = 256 * (n div 256) + n mod 256" by simp
  show ?thesis using a b c d unfolding b0 by linarith
qed

lemma bytes_int_int_bytes: "bytes_int (int_bytes w) = w"
proof -
  let ?n = "unat w"
  have n: "?n < 4294967296" using unsigned_less [of w, where ?'a = nat] by simp
  have d: "unat (drop_bit k w) = ?n div 2 ^ k" for k
    by (simp add: unat_drop_bit_eq) (simp add: drop_bit_eq_div)
  have "bytes_int (int_bytes w) =
      word_of_nat (?n mod 256 + 256 * (?n div 256 mod 256) + 65536 * (?n div 65536 mod 256)
          + 16777216 * (?n div 16777216 mod 256))"
    using d [of 8] d [of 16] d [of 24]
    by (simp add: bytes_int_def int_bytes_def of_char_char_of_word)
  also have "\<dots> = word_of_nat ?n" by (simp only: split_bytes [OF n])
  finally show ?thesis by simp
qed

lemma channel_status_int_bytes: "channel_status (RdBytes (int_bytes w)) = sint w"
proof -
  have l: "length (int_bytes w) = 4" by (simp add: int_bytes_def)
  then have "take 4 (int_bytes w) = int_bytes w" by simp
  then show ?thesis using l by (simp add: channel_status_def bytes_int_int_bytes)
qed

section \<open>Channel traffic of a spawn request\<close>




lemma push_fields [simp]:
  "master (pushShellspawnCommand e t v p) = master p"
  "sockfd (pushShellspawnCommand e t v p) = sockfd p"
  "fds (pushShellspawnCommand e t v p) = fds p"
  "blocked (pushShellspawnCommand e t v p) = blocked p"
  "syscalls (pushShellspawnCommand e t v p) = syscalls p"
  by (simp_all add: pushShellspawnCommand_def split: option.splits)

lemma connect_fields [simp]:
  "sent (connectToShellspawn e p) = sent p"
  "blocked (connectToShellspawn e p) = blocked p"
  "fds (connectToShellspawn e p) = fds p"
  "master (connectToShellspawn e p) = master p"
  "syscalls (connectToShellspawn e p) = syscalls p"
  by (simp_all add: connectToShellspawn_def split: option.splits)

lemma connect_not_running [simp]: "\<not> running p \<Longrightarrow> connectToShellspawn e p = p"
  by (simp add: connectToShellspawn_def)

lemma setupShellspawnEnv_fields [simp]:
  "blocked (setupShellspawnEnv e p) = blocked p"
  "fds (setupShellspawnEnv e p) = fds p"
  "master (setupShellspawnEnv e p) = master p"
  "sockfd (setupShellspawnEnv e p) = sockfd p"
  "syscalls (setupShellspawnEnv e p) = syscalls p"
  by (simp_all add: setupShellspawnEnv_def Let_def split: option.splits)


lemma setupWorkingDir_fields [simp]:
  "blocked (setupWorkingDir e p) = blocked p" "fds (setupWorkingDir e p) = fds p"
  "master (setupWorkingDir e p) = master p" "sockfd (setupWorkingDir e p) = sockfd p"
  "syscalls (setupWorkingDir e p) = syscalls p"
  by (simp_all add: setupWorkingDir_def)


lemma setupIDs_fields [simp]:
  "blocked (setupIDs e p) = blocked p" "fds (setupIDs e p) = fds p"
  "master (setupIDs e p) = master p" "sockfd (setupIDs e p) = sockfd p"
  "syscalls (setupIDs e p) = syscalls p"
  by (simp_all add: setupIDs_def)


lemma setupPtys_fields [simp]:
  "sent (setupPtys e p) = sent p" "blocked (setupPtys e p) = blocked p"
  "sockfd (setupPtys e p) = sockfd p"
  by (simp_all add: setupPtys_def Let_def split: option.splits prod.splits)

lemma setupFDs_fields [simp]:
  "sent (setupFDs e p) = sent p" "blocked (setupFDs e p) = blocked p"
  "sockfd (setupFDs e p) = sockfd p"
  by (simp_all add: setupFDs_def Let_def split: option.splits prod.splits)



lemma fold_addarg_blocked [simp]:
  "blocked (fold (\<lambda>a. pushShellspawnCommand e SHELLSPAWN_ADDARG (Some a)) args p) = blocked p"
  by (induction args arbitrary: p) simp_all


lemma plain_same_sent: "sent q = sent p \<Longrightarrow> plain q = plain p"
  by (simp add: plain_def)








lemma shellLoop_blocked: "blocked (shellLoop e rs p) \<Longrightarrow> \<not> blocked p \<Longrightarrow> running p"
  by (rule ccontr) simp

lemma pushFDs_fields [simp]:
  "fds (pushShellspawnCommandFDs e t fs p) = fds p"
  "master (pushShellspawnCommandFDs e t fs p) = master p"
  "sockfd (pushShellspawnCommandFDs e t fs p) = sockfd p"
  "blocked (pushShellspawnCommandFDs e t fs p) = blocked p"
  "syscalls (pushShellspawnCommandFDs e t fs p) = syscalls p"
  by (simp_all add: pushShellspawnCommandFDs_def split: prod.splits)



lemma go_shape_exit: "go_shape p \<Longrightarrow> go_shape (exit_with n p)"
  by (simp add: go_shape_def)







lemma c_str_idem [simp]: "c_str (c_str s) = c_str s"
  by (simp add: c_str_def takeWhile_idem)

lemma running_sent_update [simp]: "running (p\<lparr>sent := x\<rparr>) = running p"
  by (simp add: running_def)














lemma cmd_messages [simp]:
  "cmd (string_message t v) = t" "cmd (ids_message u g) = SHELLSPAWN_SETUIDGID"
  "cmd (go_message fs) = SHELLSPAWN_GO" "cmd (signal_message n) = SHELLSPAWN_SIGNAL"
  by (simp_all add: string_message_def ids_message_def go_message_def signal_message_def
      split: prod.splits)





section \<open>The init record\<close>

lemma getInitProcess_cases:
  "snd (getInitProcess uid gid w) = w \<or>
   getInitProcess uid gid w = (0, unlink_pidfile w)"
  by (simp add: getInitProcess_def Let_def split: option.splits prod.splits)

lemma getInitProcess_no_pidfile: "pidfile w = None \<Longrightarrow> getInitProcess uid gid w = (0, w)"
  by (simp add: getInitProcess_def)

text \<open>
  C8. A second call of \<^verbatim>\<open>getInitProcess\<close> on the system that the first call left
  returns the same pid and leaves the system as it is: it deletes nothing that the first
  call did not delete.
\<close>

theorem getInitProcess_idempotent:
  "getInitProcess uid gid (snd (getInitProcess uid gid w)) = getInitProcess uid gid w"
proof -
  from getInitProcess_cases [of uid gid w] show ?thesis
  proof
    assume "snd (getInitProcess uid gid w) = w"
    then show ?thesis by simp
  next
    assume a: "getInitProcess uid gid w = (0, unlink_pidfile w)"
    have "pidfile (unlink_pidfile w) = None" by (simp add: unlink_pidfile_def)
    from getInitProcess_no_pidfile [OF this, of uid gid] show ?thesis using a by simp
  qed
qed

lemma scan_pid_1234: "scan_d ''1234'' = Some (1234, [])"
  by code_simp

lemma scan_d_saturates:
  "scan_d ''18446744073709552850'' = Some (- 1, [])"
  "scan_d ''-18446744073709552850'' = Some (0, [])"
  "scan_d ''4294968530'' = Some (1234, [])"
  by (simp_all add: scan_d_def scan_sign_def isspace_def isdigit_def digits_value_def
      strtol_value_def LONG_MAX_def LONG_MIN_def)

lemma scan_comm_word:
  "scan_s (''darlingserver x'' @ [NEWLINE]) = Some (''darlingserver'', [SPACE, CHR ''x'', NEWLINE])"
  "scan_s (''darlingserver'' @ [NEWLINE]) = Some (''darlingserver'', [NEWLINE])"
  "scan_s (''bash'' @ [NEWLINE]) = Some (''bash'', [NEWLINE])"
  by code_simp+

lemma status_all_1000:
  "status_matches 1000 1000
     (''Name:'' @ [TAB] @ name @ [NEWLINE] @
      ''Uid:'' @ tabbed [''1000'', ''1000'', ''1000'', ''1000''] @ [NEWLINE] @
      ''Gid:'' @ tabbed [''1000'', ''1000'', ''1000'', ''1000''] @ [NEWLINE]) = (True, True)"
  if "name = ''darlingserver x'' \<or> name = ''darlingserver''"
  using that by (elim disjE; hypsubst) code_simp+

lemma getInitProcess_dead_pid:
  assumes "pidfile w = Some content" "scan_d content = Some (pid_i, rest)"
    and "\<not> kill0 w (sint pid_i)"
  shows "getInitProcess uid gid w = (0, unlink_pidfile w)"
  using assms by (simp add: getInitProcess_def Let_def)

lemma getInitProcess_other_name:
  assumes "pidfile w = Some content" "scan_d content = Some (pid_i, rest)"
    and "kill0 w (sint pid_i)" "proc_comm w (sint pid_i) = Some comm"
    and "map_option (\<lambda>(word, _). c_str word) (scan_s comm) \<noteq> Some ''darlingserver''"
  shows "getInitProcess uid gid w = (0, unlink_pidfile w)"
  using assms by (auto simp: getInitProcess_def Let_def split: option.splits)

lemma getInitProcess_other_owner:
  assumes "pidfile w = Some content" "scan_d content = Some (pid_i, rest)"
    and "kill0 w (sint pid_i)" "proc_comm w (sint pid_i) = Some comm"
    and "scan_s comm = Some (name, rest')" "c_str name = ''darlingserver''"
    and "uid \<noteq> 0" "proc_status w (sint pid_i) = Some status"
    and "status_matches uid gid status \<noteq> (True, True)"
  shows "getInitProcess uid gid w = (0, unlink_pidfile w)"
  using assms by (auto simp: getInitProcess_def Let_def split: prod.splits)

lemma getInitProcess_running:
  assumes "pidfile w = Some content" "scan_d content = Some (pid_i, rest)"
    and "kill0 w (sint pid_i)" "proc_comm w (sint pid_i) = Some comm"
    and "scan_s comm = Some (name, rest')" "c_str name = ''darlingserver''"
    and "uid = 0 \<or> (\<exists>status. proc_status w (sint pid_i) = Some status \<and>
           status_matches uid gid status = (True, True))"
  shows "getInitProcess uid gid w = (sint pid_i, w)"
  using assms by (auto simp: getInitProcess_def Let_def split: prod.splits)

lemma status_line_mismatch:
  assumes "scan_ids ''Uid:'' l = Some (rid, eid, sid, fid)"
    and "rid \<noteq> uid \<or> eid \<noteq> uid \<or> sid \<noteq> uid \<or> fid \<noteq> uid"
  shows "\<not> fst (status_line uid gid l m)"
  using assms by (auto simp: status_line_def split: prod.splits)

lemma status_saved_uid_root:
  "status_matches 1000 1000
     (''Name:'' @ [TAB] @ ''darlingserver'' @ [NEWLINE] @
      ''Uid:'' @ tabbed [''1000'', ''1000'', ''0'', ''1000''] @ [NEWLINE] @
      ''Gid:'' @ tabbed [''1000'', ''1000'', ''1000'', ''1000''] @ [NEWLINE]) = (False, True)"
  by code_simp

lemma sint_1234: "sint (1234 :: 32 word) = 1234"
  by simp

text \<open>
  C2 at a record whose pid is alive, owned by the invoking user, and carries the command
  name \<open>darlingserver x\<close>: \<^verbatim>\<open>%ms\<close> reads the name only up to the blank, the
  comparison with \<open>darlingserver\<close> succeeds, the pid is returned and the record stays.
  The three lemmas above state the cases that do return 0 and delete the record.
\<close>

theorem getInitProcess_accepts_longer_name:
  "pidfile (sample_world ''darlingserver x'' (tabbed [''1000'', ''1000'', ''1000'', ''1000''])) =
     Some ''1234'' \<and>
   kill0 (sample_world ''darlingserver x'' (tabbed [''1000'', ''1000'', ''1000'', ''1000''])) 1234 \<and>
   proc_comm (sample_world ''darlingserver x'' (tabbed [''1000'', ''1000'', ''1000'', ''1000''])) 1234 =
     Some (''darlingserver x'' @ [NEWLINE]) \<and>
   fst (getInitProcess 1000 1000
     (sample_world ''darlingserver x'' (tabbed [''1000'', ''1000'', ''1000'', ''1000'']))) = 1234 \<and>
   pidfile (snd (getInitProcess 1000 1000
     (sample_world ''darlingserver x'' (tabbed [''1000'', ''1000'', ''1000'', ''1000''])))) =
     Some ''1234''"
proof -
  let ?w = "sample_world ''darlingserver x'' (tabbed [''1000'', ''1000'', ''1000'', ''1000''])"
  have f: "pidfile ?w = Some ''1234''" "kill0 ?w (sint (1234 :: 32 word))"
    "proc_comm ?w (sint (1234 :: 32 word)) = Some (''darlingserver x'' @ [NEWLINE])"
    "proc_status ?w (sint (1234 :: 32 word)) = Some (''Name:'' @ [TAB] @ ''darlingserver x'' @ [NEWLINE] @
      ''Uid:'' @ tabbed [''1000'', ''1000'', ''1000'', ''1000''] @ [NEWLINE] @
      ''Gid:'' @ tabbed [''1000'', ''1000'', ''1000'', ''1000''] @ [NEWLINE])"
    by (simp_all add: sample_world_def)
  have st: "(1000 :: 32 word) = 0 \<or> (\<exists>status. proc_status ?w (sint (1234 :: 32 word)) = Some status \<and>
           status_matches 1000 1000 status = (True, True))"
    using f(4) status_all_1000 [of "''darlingserver x''"] by simp
  have c: "c_str ''darlingserver'' = ''darlingserver''" by (simp add: c_str_def)
  have "getInitProcess 1000 1000 ?w = (sint (1234 :: 32 word), ?w)"
    using getInitProcess_running [OF f(1) scan_pid_1234 f(2) f(3) scan_comm_word(1) c st] .
  then show ?thesis using f by simp
qed

text \<open>
  C2 at the same record, in the terms of the claim: the result is not the not-running
  result 0, and the record file is still there.
\<close>

theorem getInitProcess_accepts_longer_name_witness:
  "fst (getInitProcess 1000 1000
     (sample_world ''darlingserver x'' (tabbed [''1000'', ''1000'', ''1000'', ''1000'']))) \<noteq> 0 \<and>
   pidfile (snd (getInitProcess 1000 1000
     (sample_world ''darlingserver x'' (tabbed [''1000'', ''1000'', ''1000'', ''1000''])))) \<noteq> None"
  using getInitProcess_accepts_longer_name by simp

text \<open>C8 for a record whose pid belongs to a process named \<open>bash\<close>.\<close>

theorem getInitProcess_idempotent_witness:
  "getInitProcess 1000 1000 (snd (getInitProcess 1000 1000
      (sample_world ''bash'' (tabbed [''1000'', ''1000'', ''1000'', ''1000''])))) =
     (0, unlink_pidfile (sample_world ''bash'' (tabbed [''1000'', ''1000'', ''1000'', ''1000''])))"
proof -
  let ?w = "sample_world ''bash'' (tabbed [''1000'', ''1000'', ''1000'', ''1000''])"
  have f: "pidfile ?w = Some ''1234''" "kill0 ?w (sint (1234 :: 32 word))"
    "proc_comm ?w (sint (1234 :: 32 word)) = Some (''bash'' @ [NEWLINE])"
    by (simp_all add: sample_world_def)
  have n: "map_option (\<lambda>(word, _). c_str word) (scan_s (''bash'' @ [NEWLINE])) \<noteq> Some ''darlingserver''"
    unfolding scan_comm_word(3) by (simp add: c_str_def)
  have "getInitProcess 1000 1000 ?w = (0, unlink_pidfile ?w)"
    using getInitProcess_other_name [OF f(1) scan_pid_1234 f(2) f(3) n] .
  then show ?thesis
    using getInitProcess_idempotent [of 1000 1000 ?w] by simp
qed

end
